theory Spec2Isabelle
  imports Complex_Main "HOL-Library.Multiset" "HOL-Library.Product_Lexorder"
begin

section \<open>JavaScript numbers\<close>

text \<open>
  The front end computes with JavaScript numbers. A finite number is modelled by a
  \<^typ>\<open>real\<close> (rounding is not modelled); the three special values that a division can
  produce are kept apart, because a comparison with \<open>NaN\<close> is false and a division by
  zero is not an error in JavaScript.
\<close>

datatype number = NaN | NegInfinity | Finite real | Infinity

text \<open>\<open>x / y\<close> on finite operands (the zero divisor is taken as \<open>+0\<close>).\<close>

definition js_div :: "real \<Rightarrow> real \<Rightarrow> number" where
  "js_div x y =
     (if y \<noteq> 0 then Finite (x / y)
      else if 0 < x then Infinity
      else if x < 0 then NegInfinity
      else NaN)"

text \<open>\<open>n * c\<close> for a finite right operand \<open>c\<close>.\<close>

fun js_times :: "number \<Rightarrow> real \<Rightarrow> number" where
  "js_times NaN c = NaN"
| "js_times (Finite x) c = Finite (x * c)"
| "js_times Infinity c = (if 0 < c then Infinity else if c < 0 then NegInfinity else NaN)"
| "js_times NegInfinity c = (if 0 < c then NegInfinity else if c < 0 then Infinity else NaN)"

text \<open>\<open>n >= c\<close> for a finite right operand \<open>c\<close>.\<close>

fun js_ge :: "number \<Rightarrow> real \<Rightarrow> bool" where
  "js_ge NaN c = False"
| "js_ge NegInfinity c = False"
| "js_ge (Finite x) c = (c \<le> x)"
| "js_ge Infinity c = True"

section \<open>Score colours (\<open>frontend/src/lib/api.ts\<close>)\<close>

definition getScoreColor :: "real \<Rightarrow> real \<Rightarrow> string" where
  "getScoreColor score maxScore =
     (let percentage = js_times (js_div score maxScore) 100 in
      if js_ge percentage 80 then ''text-green-600''
      else if js_ge percentage 60 then ''text-yellow-600''
      else if js_ge percentage 40 then ''text-orange-500''
      else ''text-red-600'')"

definition getScoreBgColor :: "real \<Rightarrow> real \<Rightarrow> string" where
  "getScoreBgColor score maxScore =
     (let percentage = js_times (js_div score maxScore) 100 in
      if js_ge percentage 80 then ''bg-green-100''
      else if js_ge percentage 60 then ''bg-yellow-100''
      else if js_ge percentage 40 then ''bg-orange-100''
      else ''bg-red-100'')"

section \<open>API response types (\<open>frontend/src/types/index.ts\<close>)\<close>

text \<open>
  Each interface is a record with the source's field names; an optional field \<open>f?: T\<close>
  is a field of type \<open>T option\<close>. Scores are numbers (\<^typ>\<open>real\<close>), slide numbers are
  integers and the three counters of the bulk response are natural numbers. The field
  \<open>context\<close> of an evidence item is written \<open>context'\<close>, since \<open>context\<close> is reserved.
\<close>

record EvidenceItem =
  slide_no :: int
  quote :: string
  context' :: "string option"
  comment :: "string option"

record DeterministicCheckResult =
  check_name :: string
  passed :: bool
  score :: real
  max_score :: real
  evidence :: "EvidenceItem list"
  missing_items :: "string list"
  details :: "string option"

record DetectedEthicsPrinciple =
  principle :: string
  correct_definition :: bool
  scene_match :: bool
  note' :: "string option"

record RubricScore =
  category :: string
  score :: real
  max_score :: real
  reason :: string
  evidence :: "EvidenceItem list"
  sub_scores :: "(string \<times> real) list option"
  detected_principles :: "DetectedEthicsPrinciple list option"
  consistency_analysis :: "string option"
  found_fields :: "string list option"
  missing_fields :: "string list option"
  language_errors :: "string list option"

datatype priority = high | medium | low

record ImprovementSuggestion =
  category :: string
  suggestion :: string
  priority :: priority

record GradingResult =
  total_score :: real
  rubric_scores :: "RubricScore list"
  missing_items :: "string list"
  improvements :: "ImprovementSuggestion list"
  deterministic_checks :: "DeterministicCheckResult list"
  on_time_submitted :: bool
  grading_notes :: "string option"
  overall_evaluation :: "string option"

record StudentResult =
  student_name :: string
  filename :: string
  success :: bool
  result :: "GradingResult option"
  error :: "string option"

record BulkAnalyzeResponse =
  total_files :: nat
  successful :: nat
  failed :: nat
  results :: "StudentResult list"

section \<open>Exceptions\<close>

text \<open>
  A JavaScript \<open>throw\<close> (or a rejected promise under \<open>await\<close>) is the left summand of
  a result. \<open>APIError\<close> is the class of \<open>frontend/src/lib/api.ts\<close>; \<open>TypeError\<close> is what
  reading a property of \<open>undefined\<close> or \<open>null\<close> throws, and what the conversion of an
  object to a string throws when no method of the object gives a primitive;
  \<open>SyntaxError\<close> is what \<open>response.json()\<close> rejects with when the body is not JSON.
\<close>

record APIError =
  message :: string
  status :: nat
  details :: "string option"

datatype exception = TypeError | SyntaxError | Thrown APIError

section \<open>The bulk results display (\<open>frontend/src/components/BulkResultsDisplay.tsx\<close>)\<close>

text \<open>\<open>result.results.filter((r) => r.success && r.result)\<close>\<close>

definition successfulResults :: "BulkAnalyzeResponse \<Rightarrow> StudentResult list" where
  "successfulResults b = filter (\<lambda>r. success r \<and> result r \<noteq> None) (results b)"

text \<open>
  \<open>successfulResults.reduce((acc, r) => acc + r.result!.total_score, 0)\<close>: the non-null
  assertion \<open>!\<close> is erased at run time, so the read of \<open>total_score\<close> throws when the
  result is absent.
\<close>

fun reduce_total_score :: "StudentResult list \<Rightarrow> real \<Rightarrow> exception + real" where
  "reduce_total_score [] acc = Inr acc"
| "reduce_total_score (r # rs) acc =
     (case result r of
        None \<Rightarrow> Inl TypeError
      | Some g \<Rightarrow> reduce_total_score rs (acc + total_score g))"

definition avgScore :: "BulkAnalyzeResponse \<Rightarrow> exception + number" where
  "avgScore b =
     (if length (successfulResults b) > 0
      then (case reduce_total_score (successfulResults b) 0 of
              Inl e \<Rightarrow> Inl e
            | Inr acc \<Rightarrow> Inr (js_div acc (real (length (successfulResults b)))))
      else Inr (Finite 0))"

text \<open>The comparator handed to \<open>sort\<close>; \<open>b.result\<close> is read before \<open>a.result\<close>.\<close>

definition compareResults :: "StudentResult \<Rightarrow> StudentResult \<Rightarrow> exception + real" where
  "compareResults a b =
     (if \<not> success a then Inr 1
      else if \<not> success b then Inr (- 1)
      else (case result b of
              None \<Rightarrow> Inl TypeError
            | Some gb \<Rightarrow>
                (case result a of
                   None \<Rightarrow> Inl TypeError
                 | Some ga \<Rightarrow> Inr (total_score gb - total_score ga))))"

text \<open>
  \<open>Array.prototype.sort\<close> with a comparator, as V8 (the engine of Node.js and of Chrome)
  carries it out on an array of objects. An array of fewer than two elements is returned
  as it is. Otherwise \<open>CountAndMakeRun\<close> finds the run at the start of the array: the first
  two elements are compared, then each further element with the one before it, as long as
  the answers go the same way (\<open>order < 0\<close> every time, a strictly descending run, which is
  then reversed; or \<open>order >= 0\<close> every time). \<open>BinaryInsertionSort\<close> then inserts each
  element after the run into the sorted part before it, at the place found by binary
  search with the test \<open>order < 0\<close>. An exception of the comparator ends the sort.

  This is the whole sort of an array of fewer than 64 elements. A longer array V8 cuts
  into runs made in this way (each lengthened by binary insertion to a minimum length
  between 32 and 64, or to the end of the array) and merges neighbouring runs, an element of the right run going
  before an element of the left run only when the test \<open>order < 0\<close> says so. The merge is
  not modelled: the model sorts an array of every length in the way of the short ones.
  For a comparator whose test \<open>order < 0\<close> is the strict order of a sort key, as it is for
  the comparator of the display (\<open>compareResults_display_key\<close> below), the sort by runs and
  merges is the stable sort by that key, and so is the sort of the model
  (\<open>Array_sort_stable\<close> below). Without such a key, or in another engine, the order of the
  result is the engine's own: the language leaves it open for a comparator that, like
  this one, does not answer 0 for an element against itself.
\<close>

function insertion_point ::
  "('a \<Rightarrow> 'a \<Rightarrow> exception + real) \<Rightarrow> 'a \<Rightarrow> 'a list \<Rightarrow> nat \<Rightarrow> nat \<Rightarrow> exception + nat" where
  "insertion_point comparefn pivot a left right =
     (if left < right
      then (case comparefn pivot (a ! (left + (right - left) div 2)) of
              Inl e \<Rightarrow> Inl e
            | Inr order \<Rightarrow>
                if order < 0
                then insertion_point comparefn pivot a left (left + (right - left) div 2)
                else insertion_point comparefn pivot a (left + (right - left) div 2 + 1) right)
      else Inr left)"
  by pat_completeness auto
termination
  by (relation "measure (\<lambda>(comparefn, pivot, a, left, right). right - left)") auto

declare insertion_point.simps [simp del]

fun BinaryInsertionSort ::
  "('a \<Rightarrow> 'a \<Rightarrow> exception + real) \<Rightarrow> 'a list \<Rightarrow> 'a list \<Rightarrow> exception + 'a list" where
  "BinaryInsertionSort comparefn front [] = Inr front"
| "BinaryInsertionSort comparefn front (pivot # rest) =
     (case insertion_point comparefn pivot front 0 (length front) of
        Inl e \<Rightarrow> Inl e
      | Inr left \<Rightarrow>
          BinaryInsertionSort comparefn (take left front @ pivot # drop left front) rest)"

fun run_length ::
  "('a \<Rightarrow> 'a \<Rightarrow> exception + real) \<Rightarrow> bool \<Rightarrow> 'a \<Rightarrow> 'a list \<Rightarrow> nat \<Rightarrow> exception + nat" where
  "run_length comparefn isDescending previousElement [] runLength = Inr runLength"
| "run_length comparefn isDescending previousElement (currentElement # rest) runLength =
     (case comparefn currentElement previousElement of
        Inl e \<Rightarrow> Inl e
      | Inr order \<Rightarrow>
          if (if isDescending then order \<ge> 0 else order < 0) then Inr runLength
          else run_length comparefn isDescending currentElement rest (runLength + 1))"

fun CountAndMakeRun ::
  "('a \<Rightarrow> 'a \<Rightarrow> exception + real) \<Rightarrow> 'a list \<Rightarrow> exception + 'a list \<times> nat" where
  "CountAndMakeRun comparefn (elementHigh # elementLow # rest) =
     (case comparefn elementLow elementHigh of
        Inl e \<Rightarrow> Inl e
      | Inr order \<Rightarrow>
          (case run_length comparefn (order < 0) elementLow rest 2 of
             Inl e \<Rightarrow> Inl e
           | Inr runLength \<Rightarrow>
               Inr (if order < 0
                    then rev (take runLength (elementHigh # elementLow # rest))
                         @ drop runLength (elementHigh # elementLow # rest)
                    else elementHigh # elementLow # rest,
                    runLength)))"
| "CountAndMakeRun comparefn a = Inr (a, length a)"

definition Array_sort :: "('a \<Rightarrow> 'a \<Rightarrow> exception + real) \<Rightarrow> 'a list \<Rightarrow> exception + 'a list" where
  "Array_sort comparefn xs =
     (if length xs < 2 then Inr xs
      else (case CountAndMakeRun comparefn xs of
              Inl e \<Rightarrow> Inl e
            | Inr (a, runLength) \<Rightarrow>
                BinaryInsertionSort comparefn (take runLength a) (drop runLength a)))"

text \<open>\<open>[...result.results].sort((a, b) => ...)\<close>\<close>

definition sortedResults :: "BulkAnalyzeResponse \<Rightarrow> exception + StudentResult list" where
  "sortedResults b = Array_sort compareResults (results b)"

text \<open>
  \<open>StudentResultCard\<close>, collapsed (its initial state): an error card for a failed entry,
  else a score card, which reads \<open>student.result!.total_score\<close>.
\<close>

datatype card =
    ErrorCard string string "string option"
  | ScoreCard string string string real

definition StudentResultCard :: "StudentResult \<Rightarrow> exception + card" where
  "StudentResultCard student =
     (if \<not> success student
      then Inr (ErrorCard (student_name student) (filename student) (error student))
      else (case result student of
              None \<Rightarrow> Inl TypeError
            | Some res \<Rightarrow>
                Inr (ScoreCard (student_name student) (filename student)
                       (getScoreColor (total_score res) 100) (total_score res))))"

section \<open>The file upload component (\<open>FileUpload\<close>)\<close>

text \<open>
  A browser \<open>File\<close>, as far as the component reads it: its name and its size in bytes
  (\<open>size'\<close>, since \<open>size\<close> is a constant of HOL).
\<close>

record File =
  name :: string
  size' :: nat

text \<open>
  \<open>String.prototype.toLowerCase\<close> on the ASCII letters. A string is a list of bytes
  (UTF-8); the characters outside ASCII that JavaScript lower-cases are left as they are,
  and none of them lower-cases to one of the characters of \<open>.pptx\<close>.
\<close>

definition lower_char :: "char \<Rightarrow> char" where
  "lower_char c =
     (case map_of (zip ''ABCDEFGHIJKLMNOPQRSTUVWXYZ'' ''abcdefghijklmnopqrstuvwxyz'') c of
        None \<Rightarrow> c
      | Some l \<Rightarrow> l)"

definition toLowerCase :: "string \<Rightarrow> string" where
  "toLowerCase s = map lower_char s"

text \<open>\<open>String.prototype.endsWith\<close>\<close>

definition endsWith :: "string \<Rightarrow> string \<Rightarrow> bool" where
  "endsWith s searchString =
     (length searchString \<le> length s
      \<and> drop (length s - length searchString) s = searchString)"

text \<open>The loop of \<open>validateFiles\<close> over \<open>files[i]\<close>, pushing onto \<open>validFiles\<close>.\<close>

fun validateFiles_loop :: "File list \<Rightarrow> File list \<Rightarrow> File list" where
  "validateFiles_loop [] validFiles = validFiles"
| "validateFiles_loop (file # files) validFiles =
     (if endsWith (toLowerCase (name file)) ''.pptx''
      then validateFiles_loop files (validFiles @ [file])
      else validateFiles_loop files validFiles)"

definition validateFiles :: "File list \<Rightarrow> File list" where
  "validateFiles files = validateFiles_loop files []"

text \<open>
  The properties of the component that the handlers read, and what a handler does: it
  calls \<open>onFilesSelect\<close>, calls \<open>onFileSelect\<close>, raises an alert, or does nothing.
  \<open>onFilesSelect\<close> is optional; \<open>onFilesSelect_given\<close> says whether it was passed.
\<close>

record FileUploadProps =
  disabled :: bool
  multiple :: bool
  onFilesSelect_given :: bool

datatype upload_effect =
    Nothing
  | OnFilesSelect "File list"
  | OnFileSelect File
  | Alert string

text \<open>\<open>'Sadece .pptx dosyalar\<dots> kabul edilir'\<close>, the dotless i as its two UTF-8 bytes.\<close>

definition only_pptx_message :: string where
  "only_pptx_message = ''Sadece .pptx dosyalar'' @ [CHR 0xC4, CHR 0xB1] @ '' kabul edilir''"

text \<open>The body shared by \<open>handleDrop\<close> and \<open>handleFileChange\<close> for a non-empty list.\<close>

definition select_files :: "FileUploadProps \<Rightarrow> File list \<Rightarrow> upload_effect" where
  "select_files props files =
     (case files of
        [] \<Rightarrow> Nothing
      | file # _ \<Rightarrow>
          if multiple props \<and> onFilesSelect_given props
          then (let validFiles = validateFiles files in
                if length validFiles > 0 then OnFilesSelect validFiles
                else Alert only_pptx_message)
          else if endsWith (toLowerCase (name file)) ''.pptx'' then OnFileSelect file
          else Alert only_pptx_message)"

definition handleDrop :: "FileUploadProps \<Rightarrow> File list \<Rightarrow> upload_effect" where
  "handleDrop props files = (if disabled props then Nothing else select_files props files)"

text \<open>\<open>e.target.files\<close> may be \<open>null\<close>.\<close>

definition handleFileChange :: "FileUploadProps \<Rightarrow> File list option \<Rightarrow> upload_effect" where
  "handleFileChange props files =
     (case files of None \<Rightarrow> Nothing | Some fs \<Rightarrow> select_files props fs)"

text \<open>
  A name ends with \<open>.pptx\<close> without regard to case: it is some stem followed by a dot
  and the letters p, p, t, x, each in either case.
\<close>

definition pptx_name :: "string \<Rightarrow> bool" where
  "pptx_name n =
     (\<exists>stem a b c d. n = stem @ [CHR ''.'', a, b, c, d]
        \<and> a \<in> {CHR ''p'', CHR ''P''} \<and> b \<in> {CHR ''p'', CHR ''P''}
        \<and> c \<in> {CHR ''t'', CHR ''T''} \<and> d \<in> {CHR ''x'', CHR ''X''})"

section \<open>The API client (\<open>frontend/src/lib/api.ts\<close>)\<close>

text \<open>
  A parsed JSON value. An object lists its properties in order, each key once (as
  \<open>JSON.parse\<close> returns it).
\<close>

datatype json =
    JNull
  | JBool bool
  | JNum real
  | JStr string
  | JArr "json list"
  | JObj "(string \<times> json) list"

text \<open>
  The read \<open>errorData.detail\<close>: \<open>None\<close> is \<open>undefined\<close>. Reading a property of \<open>null\<close>
  throws; a string, a number, a boolean and an array have no property \<open>detail\<close>.
\<close>

fun read_detail :: "json \<Rightarrow> exception + json option" where
  "read_detail JNull = Inl TypeError"
| "read_detail (JObj properties) = Inr (map_of properties ''detail'')"
| "read_detail (JBool b) = Inr None"
| "read_detail (JNum x) = Inr None"
| "read_detail (JStr s) = Inr None"
| "read_detail (JArr xs) = Inr None"

text \<open>The values that \<open>||\<close> lets through: all but \<open>null\<close>, \<open>false\<close>, \<open>0\<close> and \<open>""\<close>.\<close>

fun truthy :: "json \<Rightarrow> bool" where
  "truthy JNull = False"
| "truthy (JBool b) = b"
| "truthy (JNum x) = (x \<noteq> 0)"
| "truthy (JStr s) = (s \<noteq> [])"
| "truthy (JArr xs) = True"
| "truthy (JObj properties) = True"

text \<open>\<open>detail || fallback\<close>\<close>

definition or_default :: "json option \<Rightarrow> string \<Rightarrow> json" where
  "or_default detail fallback =
     (case detail of
        None \<Rightarrow> JStr fallback
      | Some v \<Rightarrow> if truthy v then v else JStr fallback)"

text \<open>
  The conversion to a string (\<open>ToString\<close>) that the \<open>Error\<close> constructor applies to
  its message. The printing of a number is a parameter. An array is converted by
  \<open>Array.prototype.join\<close>: its elements converted in turn, \<open>null\<close> elements as the empty
  string, separated by commas; the exception of an element is the exception of the array.
  An object is converted by the first of its methods \<open>toString\<close> and \<open>valueOf\<close> that is
  callable and returns a primitive: an object parsed from JSON inherits
  \<open>Object.prototype.toString\<close>, which returns \<open>[object Object]\<close>, unless it has a property
  \<open>toString\<close> of its own; that one is not callable (no JSON value is), \<open>valueOf\<close>, own or
  inherited, returns no primitive, and the conversion throws a \<open>TypeError\<close>.
\<close>

fun join_comma :: "string list \<Rightarrow> string" where
  "join_comma [] = []"
| "join_comma [s] = s"
| "join_comma (s # t # ss) = s @ '','' @ join_comma (t # ss)"

fun first_exception :: "(exception + 'a) list \<Rightarrow> exception + 'a list" where
  "first_exception [] = Inr []"
| "first_exception (Inl exn # rs) = Inl exn"
| "first_exception (Inr x # rs) =
     (case first_exception rs of
        Inl exn \<Rightarrow> Inl exn
      | Inr xs \<Rightarrow> Inr (x # xs))"

fun ToString :: "(real \<Rightarrow> string) \<Rightarrow> json \<Rightarrow> exception + string" where
  "ToString num JNull = Inr ''null''"
| "ToString num (JBool b) = Inr (if b then ''true'' else ''false'')"
| "ToString num (JNum x) = Inr (num x)"
| "ToString num (JStr s) = Inr s"
| "ToString num (JArr xs) =
     (case first_exception (map (\<lambda>x. if x = JNull then Inr [] else ToString num x) xs) of
        Inl exn \<Rightarrow> Inl exn
      | Inr ss \<Rightarrow> Inr (join_comma ss))"
| "ToString num (JObj properties) =
     (if ''toString'' \<in> set (map fst properties) then Inl TypeError
      else Inr ''[object Object]'')"

text \<open>
  What the client reads of a \<open>Response\<close>: the status, the body as \<open>response.json()\<close>
  resolves it (\<open>None\<close> when it rejects: the body is not JSON) and the bytes of
  \<open>response.blob()\<close>. \<open>response.ok\<close> is true for the statuses 200 to 299.
\<close>

record Response =
  status :: nat
  json_body :: "json option"
  blob_body :: "nat list"

definition ok :: "Response \<Rightarrow> bool" where
  "ok response = (200 \<le> Response.status response \<and> Response.status response \<le> 299)"

datatype form_value = FileValue File | TextValue string

record Request =
  url :: string
  http_method :: string
  formData :: "(string \<times> form_value) list"

text \<open>
  What the module takes from its environment: \<open>API_URL\<close>, \<open>fetch\<close> (which rejects when
  the network fails), the printing of numbers and \<open>JSON.stringify\<close>.
\<close>

record env =
  API_URL :: string
  fetch :: "Request \<Rightarrow> exception + Response"
  Number_toString :: "real \<Rightarrow> string"
  JSON_stringify :: "json \<Rightarrow> string"

text \<open>\<open>String(onTime)\<close>\<close>

definition String_of_bool :: "bool \<Rightarrow> string" where
  "String_of_bool b = (if b then ''true'' else ''false'')"

text \<open>
  The branch \<open>if (!response.ok)\<close>, which the three calls share but for the fallback
  message: \<open>errorData\<close> is the parsed body, or \<open>{}\<close> when parsing fails; the exception
  thrown is the \<open>APIError\<close>, or the \<open>TypeError\<close> of the read of \<open>detail\<close>, or the
  \<open>TypeError\<close> of the conversion of the message in \<open>super(message)\<close>.
\<close>

definition throw_not_ok :: "env \<Rightarrow> string \<Rightarrow> Response \<Rightarrow> exception" where
  "throw_not_ok e fallback response =
     (let errorData = (case json_body response of None \<Rightarrow> JObj [] | Some v \<Rightarrow> v) in
      case read_detail errorData of
        Inl exn \<Rightarrow> exn
      | Inr detail \<Rightarrow>
          (case ToString (Number_toString e) (or_default detail fallback) of
             Inl exn \<Rightarrow> exn
           | Inr msg \<Rightarrow>
               Thrown \<lparr>message = msg,
                       status = Response.status response,
                       details = Some (JSON_stringify e errorData)\<rparr>))"

definition analyze_request :: "env \<Rightarrow> File \<Rightarrow> bool \<Rightarrow> Request" where
  "analyze_request e file onTime =
     \<lparr>url = API_URL e @ ''/api/analyze'', http_method = ''POST'',
      formData = [(''file'', FileValue file), (''on_time'', TextValue (String_of_bool onTime))]\<rparr>"

definition analyzePresentation :: "env \<Rightarrow> File \<Rightarrow> bool \<Rightarrow> exception + json" where
  "analyzePresentation e file onTime =
     (case fetch e (analyze_request e file onTime) of
        Inl exn \<Rightarrow> Inl exn
      | Inr response \<Rightarrow>
          if \<not> ok response then Inl (throw_not_ok e ''Analysis failed'' response)
          else (case json_body response of
                  None \<Rightarrow> Inl SyntaxError
                | Some v \<Rightarrow> Inr v))"

definition bulk_request :: "env \<Rightarrow> string \<Rightarrow> File list \<Rightarrow> bool \<Rightarrow> Request" where
  "bulk_request e path files onTime =
     \<lparr>url = API_URL e @ path, http_method = ''POST'',
      formData = map (\<lambda>file. (''files'', FileValue file)) files
                 @ [(''on_time'', TextValue (String_of_bool onTime))]\<rparr>"

definition analyzeBulk :: "env \<Rightarrow> File list \<Rightarrow> bool \<Rightarrow> exception + json" where
  "analyzeBulk e files onTime =
     (case fetch e (bulk_request e ''/api/analyze-bulk'' files onTime) of
        Inl exn \<Rightarrow> Inl exn
      | Inr response \<Rightarrow>
          if \<not> ok response then Inl (throw_not_ok e ''Bulk analysis failed'' response)
          else (case json_body response of
                  None \<Rightarrow> Inl SyntaxError
                | Some v \<Rightarrow> Inr v))"

definition exportExcel :: "env \<Rightarrow> File list \<Rightarrow> bool \<Rightarrow> exception + nat list" where
  "exportExcel e files onTime =
     (case fetch e (bulk_request e ''/api/export-excel'' files onTime) of
        Inl exn \<Rightarrow> Inl exn
      | Inr response \<Rightarrow>
          if \<not> ok response then Inl (throw_not_ok e ''Excel export failed'' response)
          else Inr (blob_body response))"

text \<open>
  The responses whose \<open>detail\<close> is text: the body is not the JSON value \<open>null\<close>, and when
  it is an object with a property \<open>detail\<close>, that is a string or a value that \<open>||\<close>
  replaces (\<open>null\<close>, \<open>false\<close>, \<open>0\<close>).
\<close>

definition detail_is_text :: "Response \<Rightarrow> bool" where
  "detail_is_text response =
     (case json_body response of
        Some JNull \<Rightarrow> False
      | Some (JObj properties) \<Rightarrow>
          (case map_of properties ''detail'' of
             None \<Rightarrow> True
           | Some (JStr s) \<Rightarrow> True
           | Some v \<Rightarrow> \<not> truthy v)
      | _ \<Rightarrow> True)"

text \<open>
  The message the error of a call is said to carry: the \<open>detail\<close> of the response body
  when the body is a JSON object whose \<open>detail\<close> is a non-empty string, and the call's
  fallback message in every other case.
\<close>

definition described_message :: "string \<Rightarrow> Response \<Rightarrow> string" where
  "described_message fallback response =
     (case json_body response of
        Some (JObj properties) \<Rightarrow>
          (case map_of properties ''detail'' of
             Some (JStr s) \<Rightarrow> if s = [] then fallback else s
           | _ \<Rightarrow> fallback)
      | _ \<Rightarrow> fallback)"

section \<open>The output boundary\<close>

subsection \<open>The objects of the declared types\<close>

text \<open>
  A value of an interface of \<open>frontend/src/types/index.ts\<close> as the JSON object it is:
  one property for each declared field, under the declared name; an optional field that
  is absent has no property.
\<close>

definition optional :: "string \<Rightarrow> json option \<Rightarrow> (string \<times> json) list" where
  "optional key v = (case v of None \<Rightarrow> [] | Some j \<Rightarrow> [(key, j)])"

definition strings :: "string list \<Rightarrow> json" where
  "strings xs = JArr (map JStr xs)"

definition EvidenceItem_object :: "EvidenceItem \<Rightarrow> json" where
  "EvidenceItem_object e =
     JObj ([(''slide_no'', JNum (of_int (slide_no e))), (''quote'', JStr (quote e))]
           @ optional ''context'' (map_option JStr (context' e))
           @ optional ''comment'' (map_option JStr (comment e)))"

definition DeterministicCheckResult_object :: "DeterministicCheckResult \<Rightarrow> json" where
  "DeterministicCheckResult_object c =
     JObj ([(''check_name'', JStr (check_name c)), (''passed'', JBool (passed c)),
            (''score'', JNum (DeterministicCheckResult.score c)),
            (''max_score'', JNum (DeterministicCheckResult.max_score c)),
            (''evidence'', JArr (map EvidenceItem_object (DeterministicCheckResult.evidence c))),
            (''missing_items'', strings (DeterministicCheckResult.missing_items c))]
           @ optional ''details'' (map_option JStr (DeterministicCheckResult.details c)))"

definition DetectedEthicsPrinciple_object :: "DetectedEthicsPrinciple \<Rightarrow> json" where
  "DetectedEthicsPrinciple_object d =
     JObj ([(''principle'', JStr (principle d)),
            (''correct_definition'', JBool (correct_definition d)),
            (''scene_match'', JBool (scene_match d))]
           @ optional ''note'' (map_option JStr (note' d)))"

definition RubricScore_object :: "RubricScore \<Rightarrow> json" where
  "RubricScore_object r =
     JObj ([(''category'', JStr (RubricScore.category r)),
            (''score'', JNum (RubricScore.score r)),
            (''max_score'', JNum (RubricScore.max_score r)),
            (''reason'', JStr (reason r)),
            (''evidence'', JArr (map EvidenceItem_object (RubricScore.evidence r)))]
           @ optional ''sub_scores''
               (map_option (\<lambda>m. JObj (map (\<lambda>kv. (fst kv, JNum (snd kv))) m)) (sub_scores r))
           @ optional ''detected_principles''
               (map_option (\<lambda>ds. JArr (map DetectedEthicsPrinciple_object ds))
                  (detected_principles r))
           @ optional ''consistency_analysis'' (map_option JStr (consistency_analysis r))
           @ optional ''found_fields'' (map_option strings (found_fields r))
           @ optional ''missing_fields'' (map_option strings (missing_fields r))
           @ optional ''language_errors'' (map_option strings (language_errors r)))"

fun priority_string :: "priority \<Rightarrow> string" where
  "priority_string high = ''high''"
| "priority_string medium = ''medium''"
| "priority_string low = ''low''"

definition ImprovementSuggestion_object :: "ImprovementSuggestion \<Rightarrow> json" where
  "ImprovementSuggestion_object i =
     JObj [(''category'', JStr (ImprovementSuggestion.category i)),
           (''suggestion'', JStr (suggestion i)),
           (''priority'', JStr (priority_string (priority i)))]"

definition GradingResult_object :: "GradingResult \<Rightarrow> json" where
  "GradingResult_object g =
     JObj ([(''total_score'', JNum (total_score g)),
            (''rubric_scores'', JArr (map RubricScore_object (rubric_scores g))),
            (''missing_items'', strings (GradingResult.missing_items g)),
            (''improvements'', JArr (map ImprovementSuggestion_object (improvements g))),
            (''deterministic_checks'',
               JArr (map DeterministicCheckResult_object (deterministic_checks g))),
            (''on_time_submitted'', JBool (on_time_submitted g))]
           @ optional ''grading_notes'' (map_option JStr (grading_notes g))
           @ optional ''overall_evaluation'' (map_option JStr (overall_evaluation g)))"

definition StudentResult_object :: "StudentResult \<Rightarrow> json" where
  "StudentResult_object r =
     JObj ([(''student_name'', JStr (student_name r)), (''filename'', JStr (filename r)),
            (''success'', JBool (success r))]
           @ optional ''result'' (map_option GradingResult_object (result r))
           @ optional ''error'' (map_option JStr (error r)))"

definition BulkAnalyzeResponse_object :: "BulkAnalyzeResponse \<Rightarrow> json" where
  "BulkAnalyzeResponse_object b =
     JObj [(''total_files'', JNum (real (total_files b))),
           (''successful'', JNum (real (successful b))),
           (''failed'', JNum (real (failed b))),
           (''results'', JArr (map StudentResult_object (results b)))]"

definition properties_of :: "json \<Rightarrow> string list" where
  "properties_of j = (case j of JObj ps \<Rightarrow> map fst ps | _ \<Rightarrow> [])"

subsection \<open>The shape of the specification\<close>

text \<open>
  The shape of a JSON value: a number, a string, a boolean, one of a few strings, an array
  of values of one shape, an object whose values are numbers, an object with declared
  fields (each with its name, whether it is required, and the shape of its value), or
  anything. An object conforms to declared fields when each of its properties is a
  declared field with a conforming value, no name occurs twice and every required field
  is there.
\<close>

datatype shape =
    Number
  | Text
  | Boolean
  | OneOf "string list"
  | Array shape
  | NumberMap
  | Object "(string \<times> bool \<times> shape) list"
  | Any

fun conforms :: "shape \<Rightarrow> json \<Rightarrow> bool" where
  "conforms Number j = (case j of JNum x \<Rightarrow> True | _ \<Rightarrow> False)"
| "conforms Text j = (case j of JStr s \<Rightarrow> True | _ \<Rightarrow> False)"
| "conforms Boolean j = (case j of JBool b \<Rightarrow> True | _ \<Rightarrow> False)"
| "conforms (OneOf allowed) j = (case j of JStr s \<Rightarrow> s \<in> set allowed | _ \<Rightarrow> False)"
| "conforms (Array s) j = (case j of JArr xs \<Rightarrow> list_all (conforms s) xs | _ \<Rightarrow> False)"
| "conforms NumberMap j =
     (case j of
        JObj properties \<Rightarrow>
          list_all (\<lambda>p. case snd p of JNum x \<Rightarrow> True | _ \<Rightarrow> False) properties
      | _ \<Rightarrow> False)"
| "conforms (Object declared) j =
     (case j of
        JObj properties \<Rightarrow>
          distinct (map fst properties)
          \<and> list_all (\<lambda>p. list_ex (\<lambda>f. fst f = fst p \<and> conforms (snd (snd f)) (snd p)) declared)
                properties
          \<and> list_all (\<lambda>f. fst (snd f) \<longrightarrow> fst f \<in> set (map fst properties)) declared
      | _ \<Rightarrow> False)"
| "conforms Any j = True"


text \<open>The names of the fields that a shape declares.\<close>

fun shape_fields :: "shape \<Rightarrow> string list" where
  "shape_fields (Object declared) = map fst declared"
| "shape_fields s = []"

text \<open>
  The shapes of the output boundary as section 6 of the specification writes them, with
  the types of the data model of section 3. The specification names the category-specific
  extensions of a rubric score without giving their content; of these only
  \<open>consistency_analysis\<close> is said to be text.
\<close>

definition EvidenceItem_shape :: shape where
  "EvidenceItem_shape =
     Object [(''slide_no'', True, Number), (''quote'', True, Text),
             (''context'', False, Text), (''comment'', False, Text)]"

definition CheckResult_shape :: shape where
  "CheckResult_shape =
     Object [(''check_name'', True, Text), (''passed'', True, Boolean),
             (''score'', True, Number), (''max_score'', True, Number),
             (''evidence'', True, Array EvidenceItem_shape),
             (''missing_items'', True, Array Text), (''details'', False, Text)]"

definition RubricScore_shape :: shape where
  "RubricScore_shape =
     Object [(''category'', True, Text), (''score'', True, Number),
             (''max_score'', True, Number), (''reason'', True, Text),
             (''evidence'', True, Array EvidenceItem_shape),
             (''sub_scores'', False, NumberMap),
             (''detected_principles'', False, Any), (''consistency_analysis'', False, Text),
             (''found_fields'', False, Any), (''missing_fields'', False, Any),
             (''language_errors'', False, Any)]"

definition ImprovementSuggestion_shape :: shape where
  "ImprovementSuggestion_shape =
     Object [(''category'', True, Text), (''suggestion'', True, Text),
             (''priority'', True, OneOf [''high'', ''medium'', ''low''])]"

definition GradingResult_shape :: shape where
  "GradingResult_shape =
     Object [(''total_score'', True, Number),
             (''rubric_scores'', True, Array RubricScore_shape),
             (''missing_items'', True, Array Text),
             (''improvements'', True, Array ImprovementSuggestion_shape),
             (''deterministic_checks'', True, Array CheckResult_shape),
             (''on_time_submitted'', True, Boolean),
             (''grading_notes'', False, Text), (''overall_evaluation'', False, Text)]"

definition StudentResult_shape :: shape where
  "StudentResult_shape =
     Object [(''student_name'', True, Text), (''filename'', True, Text),
             (''success'', True, Boolean), (''result'', False, GradingResult_shape),
             (''error'', False, Text)]"

definition BulkReport_shape :: shape where
  "BulkReport_shape =
     Object [(''total_files'', True, Number), (''successful'', True, Number),
             (''failed'', True, Number), (''results'', True, Array StudentResult_shape)]"

text \<open>The properties of an object bear different names, all among \<open>ks\<close>.\<close>

definition keys_within :: "(string \<times> json) list \<Rightarrow> string list \<Rightarrow> bool" where
  "keys_within ps ks = (distinct (map fst ps) \<and> set (map fst ps) \<subseteq> set ks)"

section \<open>The grading pipeline (backend)\<close>

text \<open>
  The backend that grades a presentation is not among the source files: the front end
  only consumes its reports. The definitions of this section are modelled from the
  specification and from the rubric table of \<open>README.md\<close>.
\<close>

text \<open>
  The rubric of \<open>README.md\<close>: four categories worth 15, 50, 15 and 10 points, and 10
  points for a submission on time.
\<close>

datatype rubric_category = EthicsPrinciples | SceneExplanation | TemplateCompliance | VisualDesign

definition rubric_categories :: "rubric_category list" where
  "rubric_categories = [EthicsPrinciples, SceneExplanation, TemplateCompliance, VisualDesign]"

fun category_max_score :: "rubric_category \<Rightarrow> real" where
  "category_max_score EthicsPrinciples = 15"
| "category_max_score SceneExplanation = 50"
| "category_max_score TemplateCompliance = 15"
| "category_max_score VisualDesign = 10"

fun category_name :: "rubric_category \<Rightarrow> string" where
  "category_name EthicsPrinciples = ''Ethics Principles''"
| "category_name SceneExplanation = ''Scene Explanation''"
| "category_name TemplateCompliance = ''Template Compliance''"
| "category_name VisualDesign = ''Visual Design''"

definition on_time_bonus :: real where
  "on_time_bonus = 10"

text \<open>
  Modelled from the spec: the failures of the document extractor (section 4.1) and of the
  rubric grading orchestrator (section 4.3), which are not in the sources.
\<close>

datatype pipeline_error =
  UnsupportedFormat | CorruptDocument | LLMTimeout | LLMUnavailable | MalformedLLMResponse

text \<open>
  Modelled from the spec: the answer of the external evaluator to one prompt (section 9:
  \<open>evaluate(prompt, schema) -> result or error\<close>). A parsed answer carries a score that is
  not trusted, a reason and evidence.
\<close>

record raw_evaluation =
  raw_score :: real
  raw_reason :: string
  raw_evidence :: "EvidenceItem list"

text \<open>
  Modelled from the spec: the outcomes of one call of the evaluator, which is not in the
  sources: it cannot be reached in time, it is unavailable, its answer cannot be parsed
  into the schema, or the answer parses.
\<close>

datatype evaluator_reply = Timeout | Unavailable | Malformed | Parsed raw_evaluation

text \<open>
  Modelled from the spec: the defensive normalisation of the orchestrator (section 4.3),
  which clamps a returned score into \<open>[0, max_score]\<close>.
\<close>

definition clamp_score :: "real \<Rightarrow> real \<Rightarrow> real" where
  "clamp_score limit x = (if x < 0 then 0 else if limit < x then limit else x)"

text \<open>
  Modelled from the spec: the rubric score that the orchestrator makes of a parsed answer
  (section 4.3), which is not in the sources: the category's name and maximum, the clamped
  score, the evaluator's reason and evidence.
\<close>

definition normalize :: "rubric_category \<Rightarrow> raw_evaluation \<Rightarrow> RubricScore" where
  "normalize c raw =
     \<lparr>RubricScore.category = category_name c,
      RubricScore.score = clamp_score (category_max_score c) (raw_score raw),
      RubricScore.max_score = category_max_score c,
      reason = raw_reason raw,
      RubricScore.evidence = raw_evidence raw,
      sub_scores = None, detected_principles = None, consistency_analysis = None,
      found_fields = None, missing_fields = None, language_errors = None\<rparr>"

text \<open>
  Modelled from the spec: the retry budget of \<open>gradeCategory\<close> (section 4.3: one or two
  retries), which is not in the sources.
\<close>

definition retry_budget :: nat where
  "retry_budget = 2"

text \<open>
  Modelled from the spec: the attempts of \<open>gradeCategory\<close> (section 4.3), which are not
  in the sources. The evaluator is asked once and, after a malformed answer, again with a
  corrective prompt, while retries are left (the last argument); an evaluator that cannot
  be reached fails the category at once. The document and the prompt are fixed by the
  caller: the evaluator is a function of the category and of the number of the attempt.
\<close>

fun grade_attempts ::
  "(rubric_category \<Rightarrow> nat \<Rightarrow> evaluator_reply) \<Rightarrow> rubric_category \<Rightarrow> nat \<Rightarrow> nat
   \<Rightarrow> pipeline_error + RubricScore" where
  "grade_attempts ask c attempt 0 =
     (case ask c attempt of
        Timeout \<Rightarrow> Inl LLMTimeout
      | Unavailable \<Rightarrow> Inl LLMUnavailable
      | Parsed raw \<Rightarrow> Inr (normalize c raw)
      | Malformed \<Rightarrow> Inl MalformedLLMResponse)"
| "grade_attempts ask c attempt (Suc retries) =
     (case ask c attempt of
        Timeout \<Rightarrow> Inl LLMTimeout
      | Unavailable \<Rightarrow> Inl LLMUnavailable
      | Parsed raw \<Rightarrow> Inr (normalize c raw)
      | Malformed \<Rightarrow> grade_attempts ask c (Suc attempt) retries)"

text \<open>
  Modelled from the spec: \<open>gradeCategory\<close> (section 4.3), which is not in the sources: the
  first attempt, with the whole retry budget.
\<close>

definition gradeCategory ::
  "(rubric_category \<Rightarrow> nat \<Rightarrow> evaluator_reply) \<Rightarrow> rubric_category
   \<Rightarrow> pipeline_error + RubricScore" where
  "gradeCategory ask c = grade_attempts ask c 0 retry_budget"


text \<open>
  Modelled from the spec: the degradation of a failed category (section 4.3), which is not
  in the sources: a category whose evaluation fails scores zero, with the failure as its
  reason, and the other categories are graded all the same.
\<close>

definition degraded :: "rubric_category \<Rightarrow> string \<Rightarrow> RubricScore" where
  "degraded c why =
     \<lparr>RubricScore.category = category_name c,
      RubricScore.score = 0,
      RubricScore.max_score = category_max_score c,
      reason = why,
      RubricScore.evidence = [],
      sub_scores = None, detected_principles = None, consistency_analysis = None,
      found_fields = None, missing_fields = None, language_errors = None\<rparr>"

text \<open>
  Modelled from the spec: the grading of every category in turn (section 4.3), which is
  not in the sources; the categories are graded independently, each degraded on failure.
\<close>

definition gradeCategories ::
  "(rubric_category \<Rightarrow> nat \<Rightarrow> evaluator_reply) \<Rightarrow> (pipeline_error \<Rightarrow> string)
   \<Rightarrow> RubricScore list" where
  "gradeCategories ask describe =
     map (\<lambda>c. case gradeCategory ask c of
                 Inl e \<Rightarrow> degraded c (describe e)
               | Inr rubricScore \<Rightarrow> rubricScore)
       rubric_categories"

text \<open>
  Modelled from the spec: the de-duplication of the missing items in \<open>aggregate\<close>
  (section 4.4), which is not in the sources: each item once, in the order of its first
  occurrence.
\<close>

definition first_occurrences :: "'a list \<Rightarrow> 'a list" where
  "first_occurrences xs = rev (remdups (rev xs))"

text \<open>
  Modelled from the spec: \<open>aggregate\<close> (section 4.4), which is not in the sources. The
  scores of the deterministic checks are folded into the rubric categories, as the rubric
  table has it (the required fields and the page numbers under template compliance, the
  count of principles under ethics principles); they are reported, and not added a second
  time. The total is the sum of the rubric scores plus the bonus, clamped to
  \<open>[0, 100]\<close>. The missing items are those of the checks and of the rubric scores. The
  rule that derives the improvement suggestions is a parameter: the spec gives no
  thresholds.
\<close>

definition aggregate ::
  "(DeterministicCheckResult list \<Rightarrow> RubricScore list \<Rightarrow> ImprovementSuggestion list)
   \<Rightarrow> DeterministicCheckResult list \<Rightarrow> RubricScore list \<Rightarrow> bool \<Rightarrow> GradingResult" where
  "aggregate suggest checks rubricScores onTime =
     \<lparr>total_score =
        max 0 (min 100 (sum_list (map RubricScore.score rubricScores)
                        + (if onTime then on_time_bonus else 0))),
      rubric_scores = rubricScores,
      missing_items =
        first_occurrences
          (concat (map DeterministicCheckResult.missing_items checks)
           @ concat (map (\<lambda>r. case missing_fields r of None \<Rightarrow> [] | Some ms \<Rightarrow> ms)
                       rubricScores)),
      improvements = suggest checks rubricScores,
      deterministic_checks = checks,
      on_time_submitted = onTime,
      grading_notes = None,
      overall_evaluation = None\<rparr>"

text \<open>
  Modelled from the spec: the collaborators of the pipeline that are not in the sources
  and that no claim looks into: the document extractor (section 4.1), the deterministic
  check engine (section 4.2), the external evaluator for a document, the rule for the
  improvement suggestions, the message of a failure and the derivation of a student's name
  from a file name (section 4.5). \<open>'d\<close> is the document model.
\<close>

record 'd backend =
  extract' :: "nat list \<Rightarrow> pipeline_error + 'd"
  runChecks :: "'d \<Rightarrow> DeterministicCheckResult list"
  evaluate :: "'d \<Rightarrow> rubric_category \<Rightarrow> nat \<Rightarrow> evaluator_reply"
  suggest_improvements ::
    "DeterministicCheckResult list \<Rightarrow> RubricScore list \<Rightarrow> ImprovementSuggestion list"
  error_message :: "pipeline_error \<Rightarrow> string"
  derive_student_name :: "string \<Rightarrow> string"

text \<open>
  Modelled from the spec: the single-file pipeline (section 2, data flow), which is not in
  the sources: extraction, then the checks and the rubric grading on the same document,
  then aggregation. A failed extraction fails the submission.
\<close>

definition gradeSubmission :: "'d backend \<Rightarrow> nat list \<Rightarrow> bool \<Rightarrow> pipeline_error + GradingResult" where
  "gradeSubmission B bytes onTime =
     (case extract' B bytes of
        Inl e \<Rightarrow> Inl e
      | Inr doc \<Rightarrow>
          Inr (aggregate (suggest_improvements B) (runChecks B doc)
                 (gradeCategories (evaluate B doc) (error_message B)) onTime))"

text \<open>
  Modelled from the spec: \<open>runBulk\<close> (section 4.5), which is not in the sources. Each
  file in turn is graded by the single-file pipeline; a failure is recorded as a failed
  \<open>StudentResult\<close> with its message, and the next file is graded all the same. The
  report counts the successful and the failed files as it goes.
\<close>

definition gradeFile :: "'d backend \<Rightarrow> bool \<Rightarrow> string \<times> nat list \<Rightarrow> StudentResult" where
  "gradeFile B onTime file =
     (case gradeSubmission B (snd file) onTime of
        Inr g \<Rightarrow>
          \<lparr>student_name = derive_student_name B (fst file), filename = fst file,
           success = True, result = Some g, error = None\<rparr>
      | Inl e \<Rightarrow>
          \<lparr>student_name = derive_student_name B (fst file), filename = fst file,
           success = False, result = None, error = Some (error_message B e)\<rparr>)"

text \<open>
  Modelled from the spec: the loop of \<open>runBulk\<close> over the files (section 4.5), which is
  not in the sources; it appends each result in input order and counts it.
\<close>

fun runBulk_loop ::
  "'d backend \<Rightarrow> bool \<Rightarrow> (string \<times> nat list) list \<Rightarrow> BulkAnalyzeResponse
   \<Rightarrow> BulkAnalyzeResponse" where
  "runBulk_loop B onTime [] report = report"
| "runBulk_loop B onTime (file # files) report =
     (let r = gradeFile B onTime file in
      runBulk_loop B onTime files
        (if success r
         then report\<lparr>successful := successful report + 1, results := results report @ [r]\<rparr>
         else report\<lparr>failed := failed report + 1, results := results report @ [r]\<rparr>))"

text \<open>
  Modelled from the spec: \<open>runBulk\<close> itself (section 4.5), which is not in the sources:
  the loop from the empty report, whose \<open>total_files\<close> is the number of input files.
\<close>

definition runBulk :: "'d backend \<Rightarrow> (string \<times> nat list) list \<Rightarrow> bool \<Rightarrow> BulkAnalyzeResponse" where
  "runBulk B files onTime =
     runBulk_loop B onTime files
       \<lparr>total_files = length files, successful = 0, failed = 0, results = []\<rparr>"


section \<open>Example data\<close>

definition example_result :: "real \<Rightarrow> GradingResult" where
  "example_result t =
     \<lparr>total_score = t, rubric_scores = [], missing_items = [], improvements = [],
      deterministic_checks = [], on_time_submitted = False, grading_notes = None,
      overall_evaluation = None\<rparr>"

definition example_passed :: "string \<Rightarrow> real \<Rightarrow> StudentResult" where
  "example_passed f t =
     \<lparr>student_name = f, filename = f @ ''.pptx'', success = True,
      result = Some (example_result t), error = None\<rparr>"

definition example_failed :: "string \<Rightarrow> StudentResult" where
  "example_failed f =
     \<lparr>student_name = f, filename = f @ ''.pptx'', success = False,
      result = None, error = Some ''Corrupt document''\<rparr>"

definition example_report :: BulkAnalyzeResponse where
  "example_report =
     \<lparr>total_files = 4, successful = 2, failed = 2,
      results = [example_failed ''a'', example_passed ''b'' 70, example_failed ''c'',
                 example_passed ''d'' 90]\<rparr>"

definition example_deck :: File where
  "example_deck = \<lparr>name = ''Ayse_Yilmaz.PPTX'', size' = 20971520\<rparr>"

definition example_notes :: File where
  "example_notes = \<lparr>name = ''notes.pptx.pdf'', size' = 1024\<rparr>"

definition single_props :: FileUploadProps where
  "single_props = \<lparr>disabled = False, multiple = False, onFilesSelect_given = False\<rparr>"

definition bulk_props :: FileUploadProps where
  "bulk_props = \<lparr>disabled = False, multiple = True, onFilesSelect_given = True\<rparr>"

definition example_env :: "Response \<Rightarrow> env" where
  "example_env r =
     \<lparr>API_URL = ''http://localhost:8000'', fetch = (\<lambda>request. Inr r),
      Number_toString = (\<lambda>x. ''<number>''), JSON_stringify = (\<lambda>v. ''<json>'')\<rparr>"

definition response_too_large :: Response where
  "response_too_large =
     \<lparr>status = 413, json_body = Some (JObj [(''detail'', JStr ''File too large'')]),
      blob_body = []\<rparr>"

definition response_success :: Response where
  "response_success =
     \<lparr>status = 200, json_body = Some (JObj [(''success'', JBool True)]), blob_body = [80, 75]\<rparr>"

definition response_empty_detail :: Response where
  "response_empty_detail =
     \<lparr>status = 500, json_body = Some (JObj [(''detail'', JStr [])]), blob_body = []\<rparr>"

definition response_validation :: Response where
  "response_validation =
     \<lparr>status = 422,
      json_body = Some (JObj [(''detail'', JArr [JObj [(''msg'', JStr ''field required'')]])]),
      blob_body = []\<rparr>"

definition response_null :: Response where
  "response_null = \<lparr>status = 500, json_body = Some JNull, blob_body = []\<rparr>"

definition response_detail_object :: Response where
  "response_detail_object =
     \<lparr>status = 400,
      json_body = Some (JObj [(''detail'', JObj [(''toString'', JNum 1)])]),
      blob_body = []\<rparr>"

definition example_backend :: "real \<Rightarrow> nat backend" where
  "example_backend factor =
     \<lparr>extract' = (\<lambda>bytes. if bytes = [] then Inl CorruptDocument else Inr (length bytes)),
      runChecks = (\<lambda>doc. []),
      evaluate = (\<lambda>doc c attempt.
        if attempt = 0 \<and> c = VisualDesign then Malformed
        else Parsed \<lparr>raw_score = factor * category_max_score c, raw_reason = ''stub'',
                     raw_evidence = []\<rparr>),
      suggest_improvements = (\<lambda>checks rubricScores. []),
      error_message = (\<lambda>e. ''The file could not be read''),
      derive_student_name = (\<lambda>fname. fname)\<rparr>"

definition example_files :: "(string \<times> nat list) list" where
  "example_files = [(''ayse_yilmaz.pptx'', [80, 75]), (''broken.pptx'', []), (''submission1.pptx'', [80])]"

definition example_evidence :: EvidenceItem where
  "example_evidence =
     \<lparr>slide_no = 3, quote = ''Honesty'', context' = Some ''Slide title'',
      comment = Some ''Named and defined''\<rparr>"

definition example_check :: DeterministicCheckResult where
  "example_check =
     \<lparr>check_name = ''page_numbers'', passed = False, DeterministicCheckResult.score = 3,
      DeterministicCheckResult.max_score = 5,
      DeterministicCheckResult.evidence = [example_evidence],
      DeterministicCheckResult.missing_items = [''Page number on slide 4''],
      DeterministicCheckResult.details = Some ''5 of 6 slides are numbered''\<rparr>"

definition example_rubric :: RubricScore where
  "example_rubric =
     \<lparr>RubricScore.category = ''Ethics Principles'', RubricScore.score = 12,
      RubricScore.max_score = 15, reason = ''Four principles are named'',
      RubricScore.evidence = [example_evidence],
      sub_scores = Some [(''count'', 4)],
      detected_principles =
        Some [\<lparr>principle = ''Honesty'', correct_definition = True, scene_match = True,
               note' = None\<rparr>],
      consistency_analysis = Some ''Consistent'',
      found_fields = Some [''title''], missing_fields = Some [''date''],
      language_errors = Some []\<rparr>"

definition example_full_result :: GradingResult where
  "example_full_result =
     \<lparr>total_score = 22, rubric_scores = [example_rubric],
      missing_items = [''Page number on slide 4''],
      improvements =
        [\<lparr>ImprovementSuggestion.category = ''Ethics Principles'',
          suggestion = ''Name a fifth principle'', priority = medium\<rparr>],
      deterministic_checks = [example_check], on_time_submitted = True,
      grading_notes = Some ''Graded'', overall_evaluation = Some ''Fair''\<rparr>"

definition example_full_student :: StudentResult where
  "example_full_student =
     \<lparr>student_name = ''ayse yilmaz'', filename = ''ayse_yilmaz.pptx'', success = True,
      result = Some example_full_result, error = Some ''''\<rparr>"

text \<open>
  The results of \<open>example_report\<close> in the order the engine gives them: the successful
  entries by falling score, then the failed entries in the order of the report.
\<close>

definition example_engine_order :: "StudentResult list" where
  "example_engine_order =
     [example_passed ''d'' 90, example_passed ''b'' 70, example_failed ''a'',
      example_failed ''c'']"

text \<open>
  The sort key of the display: the comparator answers \<open>order < 0\<close> for two entries exactly
  when the key of the first is below the key of the second (pairs are ordered by their
  first components, then by their second): a successful entry is below a failed one, and
  below a successful one of a smaller score.
\<close>

definition display_key :: "StudentResult \<Rightarrow> bool \<times> real" where
  "display_key r = (if success r then (False, - total_score (the (result r))) else (True, 0))"

text \<open>
  The order the display aims at: \<open>a\<close> may stand before \<open>b\<close> when \<open>b\<close> is successful only
  if \<open>a\<close> is, and when both are successful only if the score of \<open>a\<close> is at least that of
  \<open>b\<close>.
\<close>

definition displayed_before :: "StudentResult \<Rightarrow> StudentResult \<Rightarrow> bool" where
  "displayed_before a b =
     ((success b \<longrightarrow> success a) \<and>
      (success a \<and> success b \<longrightarrow> total_score (the (result b)) \<le> total_score (the (result a))))"

section \<open>Properties of the score colours\<close>

lemma percentage_positive_max:
  "0 < maxScore \<Longrightarrow> js_times (js_div sc maxScore) 100 = Finite (sc / maxScore * 100)"
  by (simp add: js_div_def)

text \<open>
  Claim C10. For every score and every positive \<open>maxScore\<close>, \<open>getScoreColor\<close> and
  \<open>getScoreBgColor\<close> classify the percentage \<open>score / maxScore * 100\<close> by the same
  thresholds 80, 60 and 40: the text class is green exactly when the background class is
  green, namely when the percentage is at least 80, and likewise for yellow (at least 60),
  orange (at least 40) and red (below 40).
\<close>

theorem score_colors_agree:
  assumes "0 < maxScore"
  shows "((getScoreColor sc maxScore = ''text-green-600'') = (80 \<le> sc / maxScore * 100))
       \<and> ((getScoreBgColor sc maxScore = ''bg-green-100'') = (80 \<le> sc / maxScore * 100))
       \<and> ((getScoreColor sc maxScore = ''text-yellow-600'')
            = (60 \<le> sc / maxScore * 100 \<and> sc / maxScore * 100 < 80))
       \<and> ((getScoreBgColor sc maxScore = ''bg-yellow-100'')
            = (60 \<le> sc / maxScore * 100 \<and> sc / maxScore * 100 < 80))
       \<and> ((getScoreColor sc maxScore = ''text-orange-500'')
            = (40 \<le> sc / maxScore * 100 \<and> sc / maxScore * 100 < 60))
       \<and> ((getScoreBgColor sc maxScore = ''bg-orange-100'')
            = (40 \<le> sc / maxScore * 100 \<and> sc / maxScore * 100 < 60))
       \<and> ((getScoreColor sc maxScore = ''text-red-600'') = (sc / maxScore * 100 < 40))
       \<and> ((getScoreBgColor sc maxScore = ''bg-red-100'') = (sc / maxScore * 100 < 40))"
proof -
  have p: "js_times (js_div sc maxScore) 100 = Finite (sc / maxScore * 100)"
    using assms by (rule percentage_positive_max)
  show ?thesis
    unfolding getScoreColor_def getScoreBgColor_def Let_def p js_ge.simps
    by auto
qed

theorem score_colors_agree_witness:
  "(0::real) < 15 \<and> (0::real) < 50 \<and> (0::real) < 10
   \<and> getScoreColor 12 15 = ''text-green-600'' \<and> getScoreBgColor 12 15 = ''bg-green-100''
   \<and> getScoreColor 30 50 = ''text-yellow-600'' \<and> getScoreBgColor 30 50 = ''bg-yellow-100''
   \<and> getScoreColor 3 10 \<noteq> ''text-orange-500'' \<and> getScoreBgColor 3 10 = ''bg-red-100''"
  using score_colors_agree [of 15 12] score_colors_agree [of 50 30] score_colors_agree [of 10 3]
  by simp

section \<open>Properties of the file upload component\<close>

lemma lower_char_dot: "(lower_char c = CHR ''.'') = (c = CHR ''.'')"
  by (auto simp: lower_char_def split: if_splits)

lemma lower_char_p: "(lower_char c = CHR ''p'') = (c = CHR ''p'' \<or> c = CHR ''P'')"
  by (auto simp: lower_char_def split: if_splits)

lemma lower_char_t: "(lower_char c = CHR ''t'') = (c = CHR ''t'' \<or> c = CHR ''T'')"
  by (auto simp: lower_char_def split: if_splits)

lemma lower_char_x: "(lower_char c = CHR ''x'') = (c = CHR ''x'' \<or> c = CHR ''X'')"
  by (auto simp: lower_char_def split: if_splits)

lemma endsWith_append: "endsWith s t = (\<exists>stem. s = stem @ t)"
proof
  assume "endsWith s t"
  then have "s = take (length s - length t) s @ t"
    by (metis append_take_drop_id endsWith_def)
  then show "\<exists>stem. s = stem @ t" ..
next
  assume "\<exists>stem. s = stem @ t"
  then show "endsWith s t" by (auto simp: endsWith_def)
qed

lemma map_eq_five:
  "(map f xs = [y0, y1, y2, y3, y4]) =
   (\<exists>a0 a1 a2 a3 a4. xs = [a0, a1, a2, a3, a4]
       \<and> f a0 = y0 \<and> f a1 = y1 \<and> f a2 = y2 \<and> f a3 = y3 \<and> f a4 = y4)"
  by (auto simp: map_eq_Cons_conv)

lemma toLowerCase_pptx:
  "(toLowerCase ext = ''.pptx'') =
   (\<exists>a b c d. ext = [CHR ''.'', a, b, c, d]
        \<and> a \<in> {CHR ''p'', CHR ''P''} \<and> b \<in> {CHR ''p'', CHR ''P''}
        \<and> c \<in> {CHR ''t'', CHR ''T''} \<and> d \<in> {CHR ''x'', CHR ''X''})"
  unfolding toLowerCase_def map_eq_five lower_char_dot lower_char_p lower_char_t lower_char_x
  by blast

lemma toLowerCase_suffix:
  "toLowerCase n = stem @ t \<Longrightarrow> \<exists>u v. n = u @ v \<and> toLowerCase v = t"
  unfolding toLowerCase_def map_eq_append_conv by auto

lemma pptx_name_split:
  "pptx_name n = (\<exists>stem ext. n = stem @ ext \<and> toLowerCase ext = ''.pptx'')"
  unfolding pptx_name_def toLowerCase_pptx by blast

lemma endsWith_toLowerCase:
  "endsWith (toLowerCase n) t = (\<exists>stem ext. n = stem @ ext \<and> toLowerCase ext = t)"
proof
  assume "endsWith (toLowerCase n) t"
  then obtain stem where "toLowerCase n = stem @ t"
    unfolding endsWith_append ..
  then show "\<exists>stem ext. n = stem @ ext \<and> toLowerCase ext = t"
    by (rule toLowerCase_suffix)
next
  assume "\<exists>stem ext. n = stem @ ext \<and> toLowerCase ext = t"
  then obtain stem ext where "n = stem @ ext" "toLowerCase ext = t"
    by (elim exE conjE)
  then have "toLowerCase n = toLowerCase stem @ t"
    by (simp only: toLowerCase_def map_append)
  then show "endsWith (toLowerCase n) t" unfolding endsWith_append ..
qed

lemma endsWith_pptx_name: "endsWith (toLowerCase n) ''.pptx'' = pptx_name n"
  unfolding endsWith_toLowerCase pptx_name_split by (rule refl)

lemma validateFiles_loop_filter:
  "validateFiles_loop files validFiles = validFiles @ filter (\<lambda>f. pptx_name (name f)) files"
  by (induction files arbitrary: validFiles) (simp_all add: endsWith_pptx_name)

text \<open>
  Claim C6, as amended. \<open>validateFiles\<close> accepts exactly the files whose name ends with
  \<open>.pptx\<close> without regard to case, in their order and whatever their size. A selection
  handled as a single file passes its first file to \<open>onFileSelect\<close> when the name ends
  with \<open>.pptx\<close> and raises the alert otherwise; a selection handled as several files
  passes the accepted files to \<open>onFilesSelect\<close>, or raises the alert when none is
  accepted. The component does not look at the size of a file.
\<close>

theorem upload_accepts_pptx_names:
  "validateFiles files = filter (\<lambda>f. pptx_name (name f)) files
   \<and> (\<not> (multiple props \<and> onFilesSelect_given props) \<longrightarrow>
        select_files props (file # rest)
          = (if pptx_name (name file) then OnFileSelect file else Alert only_pptx_message))
   \<and> (multiple props \<and> onFilesSelect_given props \<longrightarrow>
        select_files props (file # rest)
          = (if filter (\<lambda>f. pptx_name (name f)) (file # rest) = [] then Alert only_pptx_message
             else OnFilesSelect (filter (\<lambda>f. pptx_name (name f)) (file # rest))))
   \<and> handleDrop props files = (if disabled props then Nothing else select_files props files)
   \<and> handleFileChange props (Some files) = select_files props files
   \<and> select_files props [] = Nothing"
  by (simp add: validateFiles_def validateFiles_loop_filter select_files_def handleDrop_def
      handleFileChange_def endsWith_pptx_name Let_def)


lemma pptx_name_example_deck: "pptx_name (name example_deck)"
  unfolding pptx_name_def example_deck_def
  by (rule exI [of _ "''Ayse_Yilmaz''"]) simp

lemma pptx_name_example_notes: "\<not> pptx_name (name example_notes)"
  unfolding endsWith_pptx_name [symmetric]
  by (simp add: example_notes_def endsWith_def toLowerCase_def lower_char_def)

theorem upload_accepts_pptx_names_witness:
  "validateFiles [example_notes, example_deck] = [example_deck]
   \<and> handleDrop single_props [example_deck] = OnFileSelect example_deck
   \<and> handleDrop single_props [example_notes] = Alert only_pptx_message
   \<and> handleDrop bulk_props [example_notes, example_deck] = OnFilesSelect [example_deck]
   \<and> handleFileChange bulk_props (Some [example_notes]) = Alert only_pptx_message"
  using upload_accepts_pptx_names [of "[example_notes, example_deck]" single_props example_deck "[]"]
    upload_accepts_pptx_names [of "[example_notes]" single_props example_notes "[]"]
    upload_accepts_pptx_names [of "[example_deck]" single_props]
    upload_accepts_pptx_names [of "[example_notes, example_deck]" bulk_props example_notes
      "[example_deck]"]
    upload_accepts_pptx_names [of "[example_notes]" bulk_props example_notes "[]"]
  by (simp add: pptx_name_example_deck pptx_name_example_notes single_props_def bulk_props_def)

theorem upload_size_counterexample:
  "15 * 1024 * 1024 < size' example_deck
   \<and> validateFiles [example_deck] = [example_deck]
   \<and> handleDrop single_props [example_deck] = OnFileSelect example_deck"
  by (simp add: validateFiles_def select_files_def handleDrop_def single_props_def
      example_deck_def endsWith_def toLowerCase_def lower_char_def)


section \<open>Properties of the API client\<close>

lemma throw_not_ok_described:
  assumes "detail_is_text response"
  shows "throw_not_ok e fallback response =
           Thrown \<lparr>message = described_message fallback response,
                   status = Response.status response,
                   details = Some (JSON_stringify e
                     (case json_body response of None \<Rightarrow> JObj [] | Some v \<Rightarrow> v))\<rparr>"
proof (cases "json_body response")
  case None
  then show ?thesis
    by (simp add: throw_not_ok_def described_message_def or_default_def)
next
  case (Some v)
  show ?thesis
  proof (cases v)
    case (JObj properties)
    show ?thesis
    proof (cases "map_of properties ''detail''")
      case None
      then show ?thesis using Some JObj
        by (simp add: throw_not_ok_def described_message_def or_default_def)
    next
      case (Some d)
      then show ?thesis using assms \<open>json_body response = Some v\<close> JObj
        by (cases d)
          (simp_all add: throw_not_ok_def described_message_def or_default_def
            detail_is_text_def)
    qed
  qed (use assms Some in \<open>simp_all add: throw_not_ok_def described_message_def or_default_def
        detail_is_text_def\<close>)
qed

text \<open>
  Claim C8, as amended. For every backend response with a non-ok status whose \<open>detail\<close> is
  text (the body is not the JSON value \<open>null\<close>, and a \<open>detail\<close> property of the body is a
  string or a falsy value), each of \<open>analyzePresentation\<close>, \<open>analyzeBulk\<close> and
  \<open>exportExcel\<close> throws an \<open>APIError\<close> whose status is the status of the response and
  whose message is the server's \<open>detail\<close> when that is a non-empty string, and the call's
  fixed message (\<open>Analysis failed\<close>, \<open>Bulk analysis failed\<close>, \<open>Excel export failed\<close>)
  when the body is not JSON, is not an object, has no \<open>detail\<close> or has a falsy one. A call
  returns a result only when the response is ok, and the result is then the parsed body
  (the bytes of the body for \<open>exportExcel\<close>). Of a body \<open>null\<close> and of a \<open>detail\<close> that
  is a number, \<open>true\<close>, an array or an object, nothing is said.
\<close>

theorem api_calls_throw_APIError:
  "(fetch e (analyze_request e file onTime) = Inr response \<and> \<not> ok response
      \<and> detail_is_text response \<longrightarrow>
      (\<exists>err. analyzePresentation e file onTime = Inl (Thrown err)
         \<and> APIError.status err = Response.status response
         \<and> message err = described_message ''Analysis failed'' response))
   \<and> (fetch e (bulk_request e ''/api/analyze-bulk'' files onTime) = Inr response \<and> \<not> ok response
      \<and> detail_is_text response \<longrightarrow>
      (\<exists>err. analyzeBulk e files onTime = Inl (Thrown err)
         \<and> APIError.status err = Response.status response
         \<and> message err = described_message ''Bulk analysis failed'' response))
   \<and> (fetch e (bulk_request e ''/api/export-excel'' files onTime) = Inr response \<and> \<not> ok response
      \<and> detail_is_text response \<longrightarrow>
      (\<exists>err. exportExcel e files onTime = Inl (Thrown err)
         \<and> APIError.status err = Response.status response
         \<and> message err = described_message ''Excel export failed'' response))
   \<and> (analyzePresentation e file onTime = Inr v \<longrightarrow>
        (\<exists>r. fetch e (analyze_request e file onTime) = Inr r \<and> ok r \<and> json_body r = Some v))
   \<and> (analyzeBulk e files onTime = Inr v \<longrightarrow>
        (\<exists>r. fetch e (bulk_request e ''/api/analyze-bulk'' files onTime) = Inr r \<and> ok r
           \<and> json_body r = Some v))
   \<and> (exportExcel e files onTime = Inr bytes \<longrightarrow>
        (\<exists>r. fetch e (bulk_request e ''/api/export-excel'' files onTime) = Inr r \<and> ok r
           \<and> blob_body r = bytes))"
proof (intro conjI impI)
  assume a: "fetch e (analyze_request e file onTime) = Inr response \<and> \<not> ok response
      \<and> detail_is_text response"
  then show "\<exists>err. analyzePresentation e file onTime = Inl (Thrown err)
         \<and> APIError.status err = Response.status response
         \<and> message err = described_message ''Analysis failed'' response"
    by (simp add: analyzePresentation_def throw_not_ok_described)
next
  assume a: "fetch e (bulk_request e ''/api/analyze-bulk'' files onTime) = Inr response \<and> \<not> ok response
      \<and> detail_is_text response"
  then show "\<exists>err. analyzeBulk e files onTime = Inl (Thrown err)
         \<and> APIError.status err = Response.status response
         \<and> message err = described_message ''Bulk analysis failed'' response"
    by (simp add: analyzeBulk_def throw_not_ok_described)
next
  assume a: "fetch e (bulk_request e ''/api/export-excel'' files onTime) = Inr response \<and> \<not> ok response
      \<and> detail_is_text response"
  then show "\<exists>err. exportExcel e files onTime = Inl (Thrown err)
         \<and> APIError.status err = Response.status response
         \<and> message err = described_message ''Excel export failed'' response"
    by (simp add: exportExcel_def throw_not_ok_described)
next
  assume "analyzePresentation e file onTime = Inr v"
  then show "\<exists>r. fetch e (analyze_request e file onTime) = Inr r \<and> ok r \<and> json_body r = Some v"
    by (auto simp: analyzePresentation_def split: sum.splits if_splits option.splits)
next
  assume "analyzeBulk e files onTime = Inr v"
  then show "\<exists>r. fetch e (bulk_request e ''/api/analyze-bulk'' files onTime) = Inr r \<and> ok r
           \<and> json_body r = Some v"
    by (auto simp: analyzeBulk_def split: sum.splits if_splits option.splits)
next
  assume "exportExcel e files onTime = Inr bytes"
  then show "\<exists>r. fetch e (bulk_request e ''/api/export-excel'' files onTime) = Inr r \<and> ok r
           \<and> blob_body r = bytes"
    by (auto simp: exportExcel_def split: sum.splits if_splits option.splits)
qed


theorem api_calls_throw_APIError_witness:
  "(\<exists>err. analyzePresentation (example_env response_too_large) example_deck True
            = Inl (Thrown err)
         \<and> APIError.status err = 413 \<and> message err = ''File too large'')
   \<and> (\<exists>err. analyzeBulk (example_env response_too_large) [example_deck] True = Inl (Thrown err)
         \<and> APIError.status err = 413 \<and> message err = ''File too large'')
   \<and> (\<exists>err. exportExcel (example_env response_too_large) [example_deck] True = Inl (Thrown err)
         \<and> APIError.status err = 413 \<and> message err = ''File too large'')
   \<and> analyzePresentation (example_env response_success) example_deck True
       = Inr (JObj [(''success'', JBool True)])
   \<and> analyzeBulk (example_env response_success) [example_deck] True
       = Inr (JObj [(''success'', JBool True)])
   \<and> exportExcel (example_env response_success) [example_deck] True = Inr [80, 75]
   \<and> (\<exists>r. fetch (example_env response_success)
              (analyze_request (example_env response_success) example_deck True) = Inr r
         \<and> ok r \<and> json_body r = Some (JObj [(''success'', JBool True)]))
   \<and> (\<exists>r. fetch (example_env response_success)
              (bulk_request (example_env response_success) ''/api/export-excel''
                 [example_deck] True) = Inr r
         \<and> ok r \<and> blob_body r = [80, 75])"
proof -
  have f: "fetch (example_env response_too_large) request = Inr response_too_large" for request
    by (simp add: example_env_def)
  have n: "\<not> ok response_too_large" "detail_is_text response_too_large"
    by (simp_all add: ok_def detail_is_text_def response_too_large_def)
  have d: "described_message fallback response_too_large = ''File too large''" for fallback
    by (simp add: described_message_def response_too_large_def)
  have s: "Response.status response_too_large = 413"
    by (simp add: response_too_large_def)
  have a: "analyzePresentation (example_env response_success) example_deck True
       = Inr (JObj [(''success'', JBool True)])"
    by (simp add: analyzePresentation_def example_env_def response_success_def ok_def)
  have b: "analyzeBulk (example_env response_success) [example_deck] True
       = Inr (JObj [(''success'', JBool True)])"
    by (simp add: analyzeBulk_def example_env_def response_success_def ok_def)
  have x: "exportExcel (example_env response_success) [example_deck] True = Inr [80, 75]"
    by (simp add: exportExcel_def example_env_def response_success_def ok_def)
  note t = api_calls_throw_APIError [of "example_env response_too_large" example_deck True
      response_too_large "[example_deck]"]
  note u = api_calls_throw_APIError [of "example_env response_success" example_deck True _
      "[example_deck]" "JObj [(''success'', JBool True)]" "[80, 75]"]
  show ?thesis
    using t u f n a b x unfolding d s by simp
qed

theorem api_error_message_counterexample:
  "json_body response_empty_detail = Some (JObj [(''detail'', JStr [])])
   \<and> analyzePresentation (example_env response_empty_detail) example_deck True
       = Inl (Thrown \<lparr>message = ''Analysis failed'', status = 500, details = Some ''<json>''\<rparr>)
   \<and> analyzePresentation (example_env response_validation) example_deck True
       = Inl (Thrown \<lparr>message = ''[object Object]'', status = 422, details = Some ''<json>''\<rparr>)
   \<and> json_body response_detail_object
       = Some (JObj [(''detail'', JObj [(''toString'', JNum 1)])])
   \<and> analyzePresentation (example_env response_detail_object) example_deck True = Inl TypeError
   \<and> json_body response_null = Some JNull
   \<and> analyzePresentation (example_env response_null) example_deck True = Inl TypeError"
  by (simp add: example_env_def response_empty_detail_def response_validation_def
      response_detail_object_def response_null_def ok_def analyzePresentation_def
      throw_not_ok_def or_default_def)

section \<open>Properties of the bulk results display\<close>

lemma reduce_total_score_sum:
  "\<forall>r\<in>set rs. result r \<noteq> None \<Longrightarrow>
   reduce_total_score rs acc = Inr (acc + (\<Sum>r\<leftarrow>rs. total_score (the (result r))))"
  by (induction rs arbitrary: acc) (auto simp: algebra_simps)

lemma successfulResults_have_result: "\<forall>r\<in>set (successfulResults b). result r \<noteq> None"
  by (simp add: successfulResults_def)

lemma successfulResults_filter_success:
  "\<forall>r\<in>set (results b). success r \<longrightarrow> result r \<noteq> None \<Longrightarrow>
   successfulResults b = filter success (results b)"
  unfolding successfulResults_def by (rule filter_cong) auto

text \<open>
  Claim C9. For every bulk report whose successful entries carry a result (the invariant of
  \<open>StudentResult\<close> in the data model), the average score the display computes is the sum
  of \<open>total_score\<close> over the entries with \<open>success\<close> true divided by the number of such
  entries, and 0 when no entry is successful. The value is always a finite number: the
  division is never done with a zero divisor.
\<close>

theorem avgScore_mean:
  assumes "\<forall>r\<in>set (results b). success r \<longrightarrow> result r \<noteq> None"
  shows "avgScore b =
           Inr (Finite (if filter success (results b) = [] then 0
                        else (\<Sum>r\<leftarrow>filter success (results b). total_score (the (result r)))
                             / real (length (filter success (results b)))))"
proof -
  have eq: "successfulResults b = filter success (results b)"
    using assms by (rule successfulResults_filter_success)
  have red: "reduce_total_score (successfulResults b) 0
             = Inr (0 + (\<Sum>r\<leftarrow>successfulResults b. total_score (the (result r))))"
    using successfulResults_have_result by (rule reduce_total_score_sum)
  show ?thesis
  proof (cases "filter success (results b) = []")
    case True
    then show ?thesis by (simp add: avgScore_def eq)
  next
    case False
    then have "real (length (filter success (results b))) \<noteq> 0" by simp
    then show ?thesis
      using False red by (simp add: avgScore_def eq js_div_def)
  qed
qed

theorem avgScore_mean_witness:
  "list_all (\<lambda>r. success r \<longrightarrow> result r \<noteq> None) (results example_report)
   \<and> avgScore example_report = Inr (Finite 80)"
  using avgScore_mean [of example_report]
  by (simp add: example_report_def example_passed_def example_failed_def example_result_def)


lemma insertion_point_ok:
  fixes f :: "'a \<Rightarrow> 'k::linorder"
  assumes agree: "\<forall>x\<in>A. \<forall>y\<in>A. \<exists>v. comparefn x y = Inr v \<and> (v < 0 \<longleftrightarrow> f x < f y)"
      and "set a \<subseteq> A" and "p \<in> A" and "sorted (map f a)"
      and "l \<le> r" and "r \<le> length a"
      and "\<forall>i<l. f (a ! i) \<le> f p"
      and "\<forall>i. r \<le> i \<and> i < length a \<longrightarrow> f p < f (a ! i)"
  shows "\<exists>k. insertion_point comparefn p a l r = Inr k \<and> k \<le> length a
           \<and> (\<forall>i<k. f (a ! i) \<le> f p)
           \<and> (\<forall>i. k \<le> i \<and> i < length a \<longrightarrow> f p < f (a ! i))"
  using assms(5-)
proof (induction "r - l" arbitrary: l r rule: less_induct)
  case less
  show ?case
  proof (cases "l < r")
    case False
    then have "insertion_point comparefn p a l r = Inr l"
      by (subst insertion_point.simps) simp
    moreover have "l = r" using False less.prems(1) by simp
    ultimately show ?thesis using less.prems by auto
  next
    case True
    define mid where "mid = l + (r - l) div 2"
    have m: "l \<le> mid" "mid < r" "mid < length a" using True less.prems(2) by (auto simp: mid_def)
    have "a ! mid \<in> A" using m(3) assms(2) by (auto dest: nth_mem)
    with agree assms(3) obtain v where v: "comparefn p (a ! mid) = Inr v"
        "v < 0 \<longleftrightarrow> f p < f (a ! mid)" by blast
    show ?thesis
    proof (cases "v < 0")
      case lt: True
      have "\<forall>i. mid \<le> i \<and> i < length a \<longrightarrow> f p < f (a ! i)"
      proof (intro allI impI)
        fix i assume i: "mid \<le> i \<and> i < length a"
        have "f (a ! mid) \<le> f (a ! i)"
          using assms(4) i by (simp add: sorted_iff_nth_mono)
        then show "f p < f (a ! i)" using v(2) lt by simp
      qed
      from less.hyps [of mid l, OF _ m(1) _ less.prems(3) this] m True
      have "\<exists>k. insertion_point comparefn p a l mid = Inr k \<and> k \<le> length a
           \<and> (\<forall>i<k. f (a ! i) \<le> f p)
           \<and> (\<forall>i. k \<le> i \<and> i < length a \<longrightarrow> f p < f (a ! i))"
        by simp
      moreover have "insertion_point comparefn p a l r = insertion_point comparefn p a l mid"
        using True v(1) lt by (subst insertion_point.simps) (simp add: mid_def)
      ultimately show ?thesis by simp
    next
      case ge: False
      have "\<forall>i<mid + 1. f (a ! i) \<le> f p"
      proof (intro allI impI)
        fix i assume i: "i < mid + 1"
        have "f (a ! i) \<le> f (a ! mid)"
          using assms(4) i m(3) by (simp add: sorted_iff_nth_mono)
        then show "f (a ! i) \<le> f p" using v(2) ge by simp
      qed
      from less.hyps [of r "mid + 1", OF _ _ less.prems(2) this less.prems(4)] m True
      have "\<exists>k. insertion_point comparefn p a (mid + 1) r = Inr k \<and> k \<le> length a
           \<and> (\<forall>i<k. f (a ! i) \<le> f p)
           \<and> (\<forall>i. k \<le> i \<and> i < length a \<longrightarrow> f p < f (a ! i))"
        by simp
      moreover have "insertion_point comparefn p a l r
          = insertion_point comparefn p a (mid + 1) r"
        using True v(1) ge by (subst insertion_point.simps) (simp add: mid_def)
      ultimately show ?thesis by simp
    qed
  qed
qed

lemma insert_at_stable:
  fixes f :: "'a \<Rightarrow> 'k::linorder"
  assumes "sorted (map f a)" and "k \<le> length a"
      and "\<forall>i<k. f (a ! i) \<le> f p"
      and "\<forall>i. k \<le> i \<and> i < length a \<longrightarrow> f p < f (a ! i)"
  shows "sorted (map f (take k a @ p # drop k a))"
    and "mset (take k a @ p # drop k a) = mset (a @ [p])"
    and "filter (\<lambda>x. f x = c) (take k a @ p # drop k a) = filter (\<lambda>x. f x = c) (a @ [p])"
proof -
  have t: "\<forall>x\<in>set (take k a). f x \<le> f p"
    using assms(2,3) by (auto simp: in_set_conv_nth)
  have d: "\<forall>x\<in>set (drop k a). f p < f x"
  proof
    fix x assume "x \<in> set (drop k a)"
    then obtain i where "i < length a - k" "x = a ! (k + i)"
      by (auto simp: in_set_conv_nth)
    then show "f p < f x" using assms(4) by simp
  qed
  have s: "sorted (map f (take k a))" "sorted (map f (drop k a))"
    using assms(1) by (simp_all add: sorted_wrt_take sorted_wrt_drop sorted_map)
  have "\<forall>x\<in>set (take k a). \<forall>y\<in>set (drop k a). f x \<le> f y"
    using t d by fastforce
  then show "sorted (map f (take k a @ p # drop k a))"
    using s t d by (auto simp: sorted_append less_imp_le)
  have "mset (take k a) + mset (drop k a) = mset a"
    by (metis append_take_drop_id mset_append)
  then show "mset (take k a @ p # drop k a) = mset (a @ [p])" by simp
  have "filter (\<lambda>x. f x = c) (a @ [p])
      = filter (\<lambda>x. f x = c) (take k a) @ filter (\<lambda>x. f x = c) (drop k a) @ filter (\<lambda>x. f x = c) [p]"
    by (metis append_take_drop_id filter_append append_assoc)
  moreover have "f p = c \<Longrightarrow> filter (\<lambda>x. f x = c) (drop k a) = []"
    using d by (auto simp: filter_empty_conv)
  ultimately show "filter (\<lambda>x. f x = c) (take k a @ p # drop k a) = filter (\<lambda>x. f x = c) (a @ [p])"
    by auto
qed

lemma BinaryInsertionSort_ok:
  fixes f :: "'a \<Rightarrow> 'k::linorder"
  assumes agree: "\<forall>x\<in>A. \<forall>y\<in>A. \<exists>v. comparefn x y = Inr v \<and> (v < 0 \<longleftrightarrow> f x < f y)"
      and "set front \<subseteq> A" and "set rest \<subseteq> A" and "sorted (map f front)"
  shows "\<exists>ys. BinaryInsertionSort comparefn front rest = Inr ys \<and> sorted (map f ys)
           \<and> mset ys = mset (front @ rest)
           \<and> (\<forall>c. filter (\<lambda>x. f x = c) ys = filter (\<lambda>x. f x = c) (front @ rest))"
  using assms(2-)
proof (induction rest arbitrary: front)
  case Nil
  then show ?case by simp
next
  case (Cons p rest)
  have "p \<in> A" using Cons.prems(2) by simp
  have "\<exists>k. insertion_point comparefn p front 0 (length front) = Inr k \<and> k \<le> length front
           \<and> (\<forall>i<k. f (front ! i) \<le> f p)
           \<and> (\<forall>i. k \<le> i \<and> i < length front \<longrightarrow> f p < f (front ! i))"
    by (rule insertion_point_ok [OF agree Cons.prems(1) \<open>p \<in> A\<close> Cons.prems(3)]) auto
  then obtain k where k: "insertion_point comparefn p front 0 (length front) = Inr k"
      "k \<le> length front" "\<forall>i<k. f (front ! i) \<le> f p"
      "\<forall>i. k \<le> i \<and> i < length front \<longrightarrow> f p < f (front ! i)"
    by auto
  let ?front = "take k front @ p # drop k front"
  note ins = insert_at_stable [OF Cons.prems(3) k(2,3,4)]
  have "set ?front \<subseteq> A"
    using Cons.prems(1) \<open>p \<in> A\<close> by (auto dest: in_set_takeD in_set_dropD)
  moreover have "set rest \<subseteq> A" using Cons.prems(2) by simp
  ultimately obtain ys where ys: "BinaryInsertionSort comparefn ?front rest = Inr ys"
      "sorted (map f ys)" "mset ys = mset (?front @ rest)"
      "\<forall>c. filter (\<lambda>x. f x = c) ys = filter (\<lambda>x. f x = c) (?front @ rest)"
    using Cons.IH [of ?front] ins(1) by blast
  have "BinaryInsertionSort comparefn front (p # rest) = Inr ys"
    using k(1) ys(1) by simp
  moreover have "mset ys = mset (front @ p # rest)"
    using ys(3) ins(2) by simp
  moreover have "\<forall>c. filter (\<lambda>x. f x = c) ys = filter (\<lambda>x. f x = c) (front @ p # rest)"
  proof
    fix c
    have "filter (\<lambda>x. f x = c) ys
        = filter (\<lambda>x. f x = c) ?front @ filter (\<lambda>x. f x = c) rest"
      using ys(4) by (simp only: filter_append)
    also have "filter (\<lambda>x. f x = c) ?front = filter (\<lambda>x. f x = c) (front @ [p])"
      by (rule ins(3))
    finally show "filter (\<lambda>x. f x = c) ys = filter (\<lambda>x. f x = c) (front @ p # rest)"
      by simp
  qed
  ultimately show ?case using ys(2) by blast
qed

lemma run_length_ok:
  fixes f :: "'a \<Rightarrow> 'k::linorder"
  assumes agree: "\<forall>x\<in>A. \<forall>y\<in>A. \<exists>v. comparefn x y = Inr v \<and> (v < 0 \<longleftrightarrow> f x < f y)"
      and "previous \<in> A" and "set rest \<subseteq> A"
  shows "\<exists>n. run_length comparefn d previous rest m = Inr n \<and> m \<le> n \<and> n \<le> m + length rest
           \<and> successively (\<lambda>x y. if d then f y < f x else f x \<le> f y)
                (previous # take (n - m) rest)"
  using assms(2-)
proof (induction rest arbitrary: previous m)
  case Nil
  then show ?case by simp
next
  case (Cons current rest)
  have c: "current \<in> A" "set rest \<subseteq> A" using Cons.prems(2) by simp_all
  with agree Cons.prems(1) obtain v where v: "comparefn current previous = Inr v"
      "v < 0 \<longleftrightarrow> f current < f previous" by blast
  show ?case
  proof (cases "if d then v \<ge> 0 else v < 0")
    case True
    then have "run_length comparefn d previous (current # rest) m = Inr m"
      using v(1) by simp
    then show ?thesis by simp
  next
    case False
    from Cons.IH [OF c, of "m + 1"] obtain n
      where n: "run_length comparefn d current rest (m + 1) = Inr n" "m + 1 \<le> n"
        "n \<le> m + 1 + length rest"
        "successively (\<lambda>x y. if d then f y < f x else f x \<le> f y)
           (current # take (n - (m + 1)) rest)"
      by blast
    have r: "run_length comparefn d previous (current # rest) m = Inr n"
      using v(1) False n(1) by simp
    have t: "take (n - m) (current # rest) = current # take (n - (m + 1)) rest"
    proof -
      obtain j where "n - m = Suc j" "n - (m + 1) = j" using n(2) by (cases "n - m") auto
      then show ?thesis by simp
    qed
    have "if d then f current < f previous else f previous \<le> f current"
      using False v(2) by (auto split: if_splits)
    then have "successively (\<lambda>x y. if d then f y < f x else f x \<le> f y)
           (previous # take (n - m) (current # rest))"
      using n(4) unfolding t by simp
    then show ?thesis using r n(2,3) by simp
  qed
qed

lemma filter_rev_distinct_key:
  assumes "distinct (map f xs)"
  shows "filter (\<lambda>x. f x = c) (rev xs) = filter (\<lambda>x. f x = c) xs"
proof -
  have "length (filter (\<lambda>x. f x = c) xs) \<le> 1"
    using assms
  proof (induction xs)
    case Nil
    then show ?case by simp
  next
    case (Cons x xs)
    have ih: "length (filter (\<lambda>x. f x = c) xs) \<le> 1" using Cons by simp
    show ?case
    proof (cases "f x = c")
      case True
      have "f x \<notin> f ` set xs" using Cons.prems by simp
      then have "\<forall>y\<in>set xs. f y \<noteq> f x" by (metis imageI)
      then have "filter (\<lambda>y. f y = c) xs = []" using True by (simp add: filter_empty_conv)
      then show ?thesis using True by simp
    next
      case False
      then show ?thesis using ih by simp
    qed
  qed
  then have "rev (filter (\<lambda>x. f x = c) xs) = filter (\<lambda>x. f x = c) xs"
    by (cases "filter (\<lambda>x. f x = c) xs" rule: list.exhaust; cases "tl (filter (\<lambda>x. f x = c) xs)")
      auto
  then show ?thesis by (simp add: rev_filter)
qed

lemma successively_le_sorted:
  fixes f :: "'a \<Rightarrow> 'k::linorder"
  assumes "successively (\<lambda>x y. f x \<le> f y) xs"
  shows "sorted (map f xs)"
proof -
  have "transp (\<lambda>x y. f x \<le> f y)" by (rule transpI) simp
  then have "sorted_wrt (\<lambda>x y. f x \<le> f y) xs"
    using assms by (simp add: successively_conv_sorted_wrt)
  then show ?thesis by (simp add: sorted_map)
qed

lemma successively_greater_rev:
  fixes f :: "'a \<Rightarrow> 'k::linorder"
  assumes "successively (\<lambda>x y. f y < f x) xs"
  shows "sorted (map f (rev xs))" and "distinct (map f xs)"
proof -
  have "transp (\<lambda>x y. f y < f x)" by (rule transpI) simp
  then have s: "sorted_wrt (\<lambda>x y. f y < f x) xs"
    using assms by (simp add: successively_conv_sorted_wrt)
  then have "sorted_wrt (\<lambda>x y. f x < f y) (rev xs)" by (simp add: sorted_wrt_rev)
  then have "sorted_wrt (\<lambda>x y. f x \<le> f y) (rev xs)"
    by (rule sorted_wrt_mono_rel [rotated]) simp
  then show "sorted (map f (rev xs))" by (simp add: sorted_map)
  have "sorted_wrt (\<lambda>x y. f x \<noteq> f y) xs"
    using s by (rule sorted_wrt_mono_rel [rotated]) simp
  then show "distinct (map f xs)"
    by (simp add: distinct_map inj_on_def sorted_wrt_iff_nth_less distinct_conv_nth in_set_conv_nth)
       (metis linorder_neqE_nat)
qed

lemma CountAndMakeRun_ok:
  fixes f :: "'a \<Rightarrow> 'k::linorder"
  assumes agree: "\<forall>x\<in>A. \<forall>y\<in>A. \<exists>v. comparefn x y = Inr v \<and> (v < 0 \<longleftrightarrow> f x < f y)"
      and "set xs \<subseteq> A"
  shows "\<exists>a n. CountAndMakeRun comparefn xs = Inr (a, n) \<and> sorted (map f (take n a))
           \<and> mset a = mset xs
           \<and> (\<forall>c. filter (\<lambda>x. f x = c) a = filter (\<lambda>x. f x = c) xs)"
proof (cases xs)
  case Nil
  then show ?thesis by simp
next
  case (Cons high tl)
  show ?thesis
  proof (cases tl)
    case Nil
    then show ?thesis using Cons by simp
  next
    case (Cons low rest)
    have xs: "xs = high # low # rest" using \<open>xs = high # tl\<close> Cons by simp
    have m: "high \<in> A" "low \<in> A" "set rest \<subseteq> A" using assms(2) xs by simp_all
    with agree obtain v where v: "comparefn low high = Inr v" "v < 0 \<longleftrightarrow> f low < f high"
      by blast
    let ?R = "\<lambda>x y. if v < 0 then f y < f x else f x \<le> f y"
    from run_length_ok [OF agree m(2,3), of "v < 0" 2] obtain n
      where n: "run_length comparefn (v < 0) low rest 2 = Inr n" "2 \<le> n" "n \<le> 2 + length rest"
        "successively ?R (low # take (n - 2) rest)"
      by blast
    have t: "take n xs = high # low # take (n - 2) rest"
    proof -
      obtain j where "n = Suc (Suc j)" using n(2) by (metis One_nat_def Suc_1 Suc_le_D Suc_le_mono)
      then show ?thesis by (simp add: xs)
    qed
    have "?R high low" using v(2) by auto
    then have run: "successively ?R (take n xs)" using n(4) unfolding t by simp
    have len: "length (take n xs) = n" using n(3) xs by simp
    show ?thesis
    proof (cases "v < 0")
      case False
      then have c: "CountAndMakeRun comparefn xs = Inr (xs, n)"
        using v(1) n(1) by (simp add: xs)
      have "successively (\<lambda>x y. f x \<le> f y) (take n xs)" using run False by simp
      then have "sorted (map f (take n xs))" by (rule successively_le_sorted)
      then show ?thesis using c by simp
    next
      case True
      let ?a = "rev (take n xs) @ drop n xs"
      have c: "CountAndMakeRun comparefn xs = Inr (?a, n)"
        using v(1) n(1) True by (simp add: xs)
      have "successively (\<lambda>x y. f y < f x) (take n xs)" using run True by simp
      note r = successively_greater_rev [OF this]
      have "length (rev (take n xs)) = n" using len by simp
      then have tk: "take n ?a = rev (take n xs)"
        by (simp only: take_append take_all order_refl diff_self_eq_0 take_0 append_Nil2)
      have s: "sorted (map f (take n ?a))" unfolding tk by (rule r(1))
      have ms: "mset ?a = mset xs"
        by (metis append_take_drop_id mset_append mset_rev)
      have "filter (\<lambda>x. f x = c) ?a = filter (\<lambda>x. f x = c) xs" for c
      proof -
        have "filter (\<lambda>x. f x = c) ?a
            = filter (\<lambda>x. f x = c) (take n xs) @ filter (\<lambda>x. f x = c) (drop n xs)"
          using filter_rev_distinct_key [OF r(2), of c] by simp
        also have "\<dots> = filter (\<lambda>x. f x = c) (take n xs @ drop n xs)"
          by (simp only: filter_append)
        finally show ?thesis by (simp only: append_take_drop_id)
      qed
      then show ?thesis using c s ms by blast
    qed
  qed
qed

text \<open>
  The sort of the model is the stable sort by a key, for every comparator whose test
  \<open>order < 0\<close> is the strict order of that key on the elements of the array: the result is
  sorted by the key, and elements of the same key keep the order they had.
\<close>

lemma Array_sort_stable:
  fixes f :: "'a \<Rightarrow> 'k::linorder"
  assumes agree: "\<forall>x\<in>set xs. \<forall>y\<in>set xs. \<exists>v. comparefn x y = Inr v \<and> (v < 0 \<longleftrightarrow> f x < f y)"
  shows "Array_sort comparefn xs = Inr (sort_key f xs)"
proof (cases "length xs < 2")
  case True
  then have "xs = [] \<or> (\<exists>x. xs = [x])"
    by (cases xs; cases "tl xs") auto
  then show ?thesis using True by (auto simp: Array_sort_def)
next
  case False
  from CountAndMakeRun_ok [OF agree subset_refl] obtain a n
    where a: "CountAndMakeRun comparefn xs = Inr (a, n)" "sorted (map f (take n a))"
      "mset a = mset xs" "\<forall>c. filter (\<lambda>x. f x = c) a = filter (\<lambda>x. f x = c) xs"
    by blast
  have "set a = set xs" using a(3) by (rule mset_eq_setD)
  then have sub: "set (take n a) \<subseteq> set xs" "set (drop n a) \<subseteq> set xs"
    by (auto dest: in_set_takeD in_set_dropD)
  from BinaryInsertionSort_ok [OF agree sub a(2)] obtain ys
    where ys: "BinaryInsertionSort comparefn (take n a) (drop n a) = Inr ys"
      "sorted (map f ys)" "mset ys = mset (take n a @ drop n a)"
      "\<forall>c. filter (\<lambda>x. f x = c) ys = filter (\<lambda>x. f x = c) (take n a @ drop n a)"
    by blast
  have r: "Array_sort comparefn xs = Inr ys"
    using False a(1) ys(1) by (simp add: Array_sort_def)
  have "mset ys = mset xs" using ys(3) a(3) by simp
  moreover have "filter (\<lambda>x. f k = f x) ys = filter (\<lambda>x. f k = f x) xs" for k
  proof -
    have "filter (\<lambda>x. f x = f k) ys = filter (\<lambda>x. f x = f k) xs"
      using ys(4) a(4) by simp
    then show ?thesis by (simp add: eq_commute [of "f k"])
  qed
  ultimately have "sort_key f xs = ys"
    using ys(2) by (intro properties_for_sort_key) simp_all
  then show ?thesis using r by simp
qed

lemma compareResults_display_key:
  assumes "success x \<longrightarrow> result x \<noteq> None" and "success y \<longrightarrow> result y \<noteq> None"
  shows "\<exists>v. compareResults x y = Inr v \<and> (v < 0 \<longleftrightarrow> display_key x < display_key y)"
  using assms by (auto simp: compareResults_def display_key_def less_prod_def)

text \<open>
  On a report whose successful entries carry a result the comparator never throws, and the
  list the display renders is the stable sort of the results by \<open>display_key\<close>.
\<close>

lemma sortedResults_stable:
  assumes "\<forall>r\<in>set (results b). success r \<longrightarrow> result r \<noteq> None"
  shows "sortedResults b = Inr (sort_key display_key (results b))"
  unfolding sortedResults_def
  by (rule Array_sort_stable) (use assms compareResults_display_key in blast)

lemma display_key_displayed_before:
  "display_key x \<le> display_key y \<Longrightarrow> displayed_before x y"
  by (auto simp: display_key_def displayed_before_def less_eq_prod_def split: if_splits)

lemma displayed_order:
  assumes "sorted_wrt displayed_before ys"
  shows "(\<forall>i j. i < length ys \<and> j < length ys \<and> \<not> success (ys ! i) \<and> success (ys ! j)
                  \<longrightarrow> j < i)
         \<and> sorted_wrt (\<lambda>x y. total_score (the (result y)) \<le> total_score (the (result x)))
                 (filter success ys)"
proof -
  have part: "j < i" if "i < length ys" "j < length ys" "\<not> success (ys ! i)" "success (ys ! j)" for i j
  proof (rule ccontr)
    assume "\<not> j < i"
    then have "i < j" using that(3,4) by (cases "i = j") auto
    then have "displayed_before (ys ! i) (ys ! j)"
      using assms that(2) by (simp add: sorted_wrt_iff_nth_less)
    then show False using that(3,4) by (simp add: displayed_before_def)
  qed
  have "sorted_wrt displayed_before (filter success ys)"
    using assms by (rule sorted_wrt_filter)
  then have "sorted_wrt (\<lambda>x y. total_score (the (result y)) \<le> total_score (the (result x)))
               (filter success ys)"
    by (rule sorted_wrt_mono_rel [rotated]) (simp add: displayed_before_def)
  then show ?thesis using part by blast
qed

text \<open>
  Claim C7. For every bulk report whose successful entries carry a result, sorting returns
  a list that is a permutation of the report's \<open>results\<close>, in which every entry with
  \<open>success\<close> false stands after every entry with \<open>success\<close> true, and in which the
  entries with \<open>success\<close> true stand in non-increasing order of \<open>total_score\<close>. The sort
  is that of V8 (\<open>Array_sort\<close>), and the list is the stable sort of the results by
  \<open>display_key\<close> (\<open>sortedResults_stable\<close>): the successful entries by falling score, then
  the failed entries, entries that tie in the order of the report.
\<close>

theorem sortedResults_order:
  assumes "\<forall>r\<in>set (results b). success r \<longrightarrow> result r \<noteq> None"
  shows "\<exists>ys. sortedResults b = Inr ys
           \<and> mset ys = mset (results b)
           \<and> (\<forall>i j. i < length ys \<and> j < length ys \<and> \<not> success (ys ! i) \<and> success (ys ! j)
                  \<longrightarrow> j < i)
           \<and> sorted_wrt (\<lambda>x y. total_score (the (result y)) \<le> total_score (the (result x)))
                 (filter success ys)"
proof -
  let ?ys = "sort_key display_key (results b)"
  have r: "sortedResults b = Inr ?ys" using assms by (rule sortedResults_stable)
  have m: "mset ?ys = mset (results b)" by simp
  have "sorted (map display_key ?ys)" by simp
  then have "sorted_wrt (\<lambda>x y. display_key x \<le> display_key y) ?ys"
    by (simp only: sorted_map)
  then have "sorted_wrt displayed_before ?ys"
    by (rule sorted_wrt_mono_rel [rotated]) (rule display_key_displayed_before)
  note o = displayed_order [OF this]
  show ?thesis using r m o by blast
qed

theorem sortedResults_order_witness:
  "list_all (\<lambda>r. success r \<longrightarrow> result r \<noteq> None) (results example_report)
   \<and> sortedResults example_report = Inr example_engine_order
   \<and> (\<exists>ys. sortedResults example_report = Inr ys
           \<and> mset ys = mset (results example_report)
           \<and> sorted_wrt (\<lambda>x y. total_score (the (result y)) \<le> total_score (the (result x)))
                 (filter success ys))"
proof -
  have h: "\<forall>r\<in>set (results example_report). success r \<longrightarrow> result r \<noteq> None"
    by (simp add: example_report_def example_passed_def example_failed_def)
  have e: "sortedResults example_report = Inr example_engine_order"
    by (simp add: sortedResults_def Array_sort_def example_report_def example_engine_order_def
        compareResults_def example_passed_def example_failed_def example_result_def
        insertion_point.simps)
  show ?thesis using sortedResults_order [OF h] h e by (auto simp: list_all_iff)
qed


section \<open>Properties of the grading pipeline\<close>

lemma clamp_score_bounds:
  "0 \<le> limit \<Longrightarrow> 0 \<le> clamp_score limit x \<and> clamp_score limit x \<le> limit"
  by (simp add: clamp_score_def)

lemma category_max_score_pos: "0 < category_max_score c"
  by (cases c) simp_all

lemma normalize_bounds:
  "0 \<le> RubricScore.score (normalize c raw)
   \<and> RubricScore.score (normalize c raw) \<le> category_max_score c
   \<and> RubricScore.max_score (normalize c raw) = category_max_score c"
  using clamp_score_bounds [of "category_max_score c" "raw_score raw"]
    category_max_score_pos [of c]
  by (simp add: normalize_def)

lemma grade_attempts_normalized:
  "grade_attempts ask c attempt retries = Inr rs \<Longrightarrow> \<exists>raw. rs = normalize c raw"
proof (induction retries arbitrary: attempt)
  case 0
  then show ?case by (auto split: evaluator_reply.splits)
next
  case (Suc n)
  then show ?case by (auto split: evaluator_reply.splits)
qed

lemma grade_attempts_first:
  "ask c attempt = Parsed raw \<Longrightarrow> grade_attempts ask c attempt retries = Inr (normalize c raw)"
  by (cases retries) simp_all

text \<open>
  Claim C2. Every \<open>RubricScore\<close> that \<open>gradeCategory\<close> returns has a score between 0
  and the maximum of its category, whatever the evaluator answered; and when the
  evaluator's first answer parses, the score returned is the evaluator's score if that
  lies in the range, 0 if it is negative and the maximum if it exceeds the maximum.
\<close>

theorem gradeCategory_clamps:
  "(gradeCategory ask c = Inr rs \<longrightarrow>
      0 \<le> RubricScore.score rs \<and> RubricScore.score rs \<le> RubricScore.max_score rs
      \<and> RubricScore.max_score rs = category_max_score c)
   \<and> (ask c 0 = Parsed raw \<longrightarrow>
        (\<exists>rs'. gradeCategory ask c = Inr rs'
           \<and> RubricScore.score rs' =
               (if raw_score raw < 0 then 0
                else if category_max_score c < raw_score raw then category_max_score c
                else raw_score raw)))"
proof (rule conjI; rule impI)
  assume "gradeCategory ask c = Inr rs"
  then obtain raw' where "rs = normalize c raw'"
    unfolding gradeCategory_def using grade_attempts_normalized by blast
  then show "0 \<le> RubricScore.score rs \<and> RubricScore.score rs \<le> RubricScore.max_score rs
      \<and> RubricScore.max_score rs = category_max_score c"
    using normalize_bounds [of c raw'] by simp
next
  assume "ask c 0 = Parsed raw"
  then have "gradeCategory ask c = Inr (normalize c raw)"
    unfolding gradeCategory_def by (rule grade_attempts_first)
  then show "\<exists>rs'. gradeCategory ask c = Inr rs'
           \<and> RubricScore.score rs' =
               (if raw_score raw < 0 then 0
                else if category_max_score c < raw_score raw then category_max_score c
                else raw_score raw)"
    by (simp add: normalize_def clamp_score_def)
qed

theorem gradeCategory_clamps_witness:
  "(\<exists>rs. gradeCategory (evaluate (example_backend 2) 1) SceneExplanation = Inr rs
      \<and> RubricScore.score rs = 50 \<and> RubricScore.max_score rs = 50)
   \<and> (\<exists>rs. gradeCategory (evaluate (example_backend (- 1)) 1) EthicsPrinciples = Inr rs
      \<and> RubricScore.score rs = 0 \<and> RubricScore.max_score rs = 15)"
proof -
  have a: "evaluate (example_backend 2) 1 SceneExplanation 0
           = Parsed \<lparr>raw_score = 100, raw_reason = ''stub'', raw_evidence = []\<rparr>"
    and b: "evaluate (example_backend (- 1)) 1 EthicsPrinciples 0
           = Parsed \<lparr>raw_score = - 15, raw_reason = ''stub'', raw_evidence = []\<rparr>"
    by (simp_all add: example_backend_def)
  from a gradeCategory_clamps [of "evaluate (example_backend 2) 1" SceneExplanation]
  obtain rs where "gradeCategory (evaluate (example_backend 2) 1) SceneExplanation = Inr rs"
    "RubricScore.score rs = 50" by fastforce
  moreover from this gradeCategory_clamps [of "evaluate (example_backend 2) 1" SceneExplanation rs]
  have "RubricScore.max_score rs = 50" by simp
  moreover from b gradeCategory_clamps [of "evaluate (example_backend (- 1)) 1" EthicsPrinciples]
  obtain rs' where "gradeCategory (evaluate (example_backend (- 1)) 1) EthicsPrinciples = Inr rs'"
    "RubricScore.score rs' = 0" by fastforce
  moreover from this
    gradeCategory_clamps [of "evaluate (example_backend (- 1)) 1" EthicsPrinciples rs']
  have "RubricScore.max_score rs' = 15" by simp
  ultimately show ?thesis by blast
qed


lemma graded_bounds:
  "0 \<le> RubricScore.score (case gradeCategory ask c of
                              Inl e \<Rightarrow> degraded c (describe e) | Inr rubricScore \<Rightarrow> rubricScore)
   \<and> RubricScore.score (case gradeCategory ask c of
                           Inl e \<Rightarrow> degraded c (describe e) | Inr rubricScore \<Rightarrow> rubricScore)
       \<le> category_max_score c"
proof (cases "gradeCategory ask c")
  case (Inl e)
  then show ?thesis using category_max_score_pos [of c] by (simp add: degraded_def)
next
  case (Inr rs)
  then obtain raw where "rs = normalize c raw"
    unfolding gradeCategory_def using grade_attempts_normalized by blast
  then show ?thesis using Inr normalize_bounds [of c raw] by simp
qed

lemma graded_table:
  "RubricScore.max_score (case gradeCategory ask c of
                            Inl e \<Rightarrow> degraded c (describe e) | Inr rubricScore \<Rightarrow> rubricScore)
     = category_max_score c
   \<and> RubricScore.category (case gradeCategory ask c of
                            Inl e \<Rightarrow> degraded c (describe e) | Inr rubricScore \<Rightarrow> rubricScore)
     = category_name c"
proof (cases "gradeCategory ask c")
  case (Inl e)
  then show ?thesis by (simp add: degraded_def)
next
  case (Inr rs)
  then obtain raw where "rs = normalize c raw"
    unfolding gradeCategory_def using grade_attempts_normalized by blast
  then show ?thesis using Inr by (simp add: normalize_def)
qed

lemma gradeCategories_sum:
  "0 \<le> sum_list (map RubricScore.score (gradeCategories ask describe))
   \<and> sum_list (map RubricScore.score (gradeCategories ask describe)) \<le> 90"
  using graded_bounds [where ask = ask and c = EthicsPrinciples and describe = describe]
    graded_bounds [where ask = ask and c = SceneExplanation and describe = describe]
    graded_bounds [where ask = ask and c = TemplateCompliance and describe = describe]
    graded_bounds [where ask = ask and c = VisualDesign and describe = describe]
  by (simp add: gradeCategories_def rubric_categories_def)

lemma gradeCategories_table:
  "map (\<lambda>r. (RubricScore.category r, RubricScore.max_score r)) (gradeCategories ask describe)
     = [(''Ethics Principles'', 15), (''Scene Explanation'', 50),
        (''Template Compliance'', 15), (''Visual Design'', 10)]"
  using graded_table [where ask = ask and c = EthicsPrinciples and describe = describe]
    graded_table [where ask = ask and c = SceneExplanation and describe = describe]
    graded_table [where ask = ask and c = TemplateCompliance and describe = describe]
    graded_table [where ask = ask and c = VisualDesign and describe = describe]
  by (simp add: gradeCategories_def rubric_categories_def)

text \<open>
  Claim C1. Every \<open>GradingResult\<close> that the pipeline produces has a total between 0 and
  100, and the total is the sum of the scores of its rubric scores plus 10 when the
  submission was on time (and plus 0 otherwise). Its rubric scores are those of the fixed
  table: ethics principles of 15, scene explanation of 50, template compliance of 15 and
  visual design of 10.
\<close>

theorem gradeSubmission_total_score:
  assumes "gradeSubmission B bytes onTime = Inr g"
  shows "0 \<le> total_score g \<and> total_score g \<le> 100
       \<and> total_score g = sum_list (map RubricScore.score (rubric_scores g))
                           + (if on_time_submitted g then 10 else 0)
       \<and> map (\<lambda>r. (RubricScore.category r, RubricScore.max_score r)) (rubric_scores g)
           = [(''Ethics Principles'', 15), (''Scene Explanation'', 50),
              (''Template Compliance'', 15), (''Visual Design'', 10)]"
proof -
  from assms obtain doc where g: "g = aggregate (suggest_improvements B) (runChecks B doc)
                 (gradeCategories (evaluate B doc) (error_message B)) onTime"
    by (auto simp: gradeSubmission_def split: sum.splits)
  have s: "0 \<le> sum_list (map RubricScore.score (gradeCategories (evaluate B doc) (error_message B)))
     \<and> sum_list (map RubricScore.score (gradeCategories (evaluate B doc) (error_message B))) \<le> 90"
    by (rule gradeCategories_sum)
  have t: "map (\<lambda>r. (RubricScore.category r, RubricScore.max_score r))
             (gradeCategories (evaluate B doc) (error_message B))
     = [(''Ethics Principles'', 15), (''Scene Explanation'', 50),
        (''Template Compliance'', 15), (''Visual Design'', 10)]"
    by (rule gradeCategories_table)
  show ?thesis
    unfolding g using s t by (simp add: aggregate_def on_time_bonus_def)
qed

theorem gradeSubmission_total_score_witness:
  "\<exists>g. gradeSubmission (example_backend 2) [80, 75] True = Inr g
      \<and> total_score g = 100
      \<and> map RubricScore.score (rubric_scores g) = [15, 50, 15, 10]
      \<and> on_time_submitted g"
proof -
  have e: "gradeSubmission (example_backend 2) [80, 75] True
     = Inr (aggregate (\<lambda>checks rubricScores. []) []
              (gradeCategories (evaluate (example_backend 2) 2) (\<lambda>e. ''The file could not be read''))
              True)"
    by (simp add: gradeSubmission_def example_backend_def)
  have m: "map RubricScore.score
             (gradeCategories (evaluate (example_backend 2) 2) (\<lambda>e. ''The file could not be read''))
           = [15, 50, 15, 10]"
    by (simp add: gradeCategories_def rubric_categories_def gradeCategory_def retry_budget_def
        numeral_2_eq_2 example_backend_def normalize_def clamp_score_def)
  show ?thesis
    using gradeSubmission_total_score [OF e] m unfolding e
    by (simp add: aggregate_def)
qed


lemma runBulk_loop_report:
  "runBulk_loop B onTime files report =
     report\<lparr>successful := successful report
                   + length (filter success (map (gradeFile B onTime) files)),
             failed := failed report
                   + length (filter (\<lambda>r. \<not> success r) (map (gradeFile B onTime) files)),
             results := results report @ map (gradeFile B onTime) files\<rparr>"
proof (induction files arbitrary: report)
  case Nil
  show ?case by simp
next
  case (Cons f fs)
  show ?case
    by (cases "success (gradeFile B onTime f)") (simp_all add: Cons.IH Let_def)
qed

lemma runBulk_report:
  "runBulk B files onTime =
     \<lparr>total_files = length files,
      successful = length (filter success (map (gradeFile B onTime) files)),
      failed = length (filter (\<lambda>r. \<not> success r) (map (gradeFile B onTime) files)),
      results = map (gradeFile B onTime) files\<rparr>"
  by (simp add: runBulk_def runBulk_loop_report)

lemma filename_gradeFile: "filename (gradeFile B onTime file) = fst file"
  by (simp add: gradeFile_def split: sum.splits)

text \<open>
  Claim C4. In every report that \<open>runBulk\<close> returns, \<open>successful\<close> is the number of
  results whose \<open>success\<close> is true, \<open>failed\<close> is the number of results whose \<open>success\<close>
  is false, \<open>total_files\<close> is their sum and the length of \<open>results\<close>, and the results
  stand in the order of the input files: the file names of the results are the file names
  of the input, in order.
\<close>

theorem runBulk_counts:
  "successful (runBulk B files onTime)
     = length (filter success (results (runBulk B files onTime)))
   \<and> failed (runBulk B files onTime)
     = length (filter (\<lambda>r. \<not> success r) (results (runBulk B files onTime)))
   \<and> total_files (runBulk B files onTime)
     = successful (runBulk B files onTime) + failed (runBulk B files onTime)
   \<and> total_files (runBulk B files onTime) = length (results (runBulk B files onTime))
   \<and> map filename (results (runBulk B files onTime)) = map fst files"
proof -
  have "length (filter success (map (gradeFile B onTime) files))
        + length (filter (\<lambda>r. \<not> success r) (map (gradeFile B onTime) files))
        = length (map (gradeFile B onTime) files)"
    by (rule sum_length_filter_compl)
  then show ?thesis
    by (simp add: runBulk_report filename_gradeFile comp_def)
qed

theorem runBulk_counts_witness:
  "total_files (runBulk (example_backend 1) example_files False) = 3
   \<and> successful (runBulk (example_backend 1) example_files False) = 2
   \<and> failed (runBulk (example_backend 1) example_files False) = 1
   \<and> map success (results (runBulk (example_backend 1) example_files False))
       = [True, False, True]
   \<and> map filename (results (runBulk (example_backend 1) example_files False))
       = [''ayse_yilmaz.pptx'', ''broken.pptx'', ''submission1.pptx'']"
proof -
  have m: "map success (results (runBulk (example_backend 1) example_files False))
       = [True, False, True]"
    by (simp add: runBulk_report example_files_def gradeFile_def gradeSubmission_def
        example_backend_def)
  have "length (filter success (results (runBulk (example_backend 1) example_files False)))
        = length (filter (\<lambda>b. b) (map success
            (results (runBulk (example_backend 1) example_files False))))"
    by (simp add: filter_map comp_def)
  then have s: "length (filter success
      (results (runBulk (example_backend 1) example_files False))) = 2"
    unfolding m by simp
  have "length (filter (\<lambda>r. \<not> success r)
          (results (runBulk (example_backend 1) example_files False)))
        = length (filter (\<lambda>b. \<not> b) (map success
            (results (runBulk (example_backend 1) example_files False))))"
    by (simp add: filter_map comp_def)
  then have f: "length (filter (\<lambda>r. \<not> success r)
      (results (runBulk (example_backend 1) example_files False))) = 1"
    unfolding m by simp
  show ?thesis
    using runBulk_counts [of "example_backend 1" example_files False] m s f
    by (simp add: example_files_def)
qed

text \<open>
  Claim C5. In every report that \<open>runBulk\<close> returns, each entry has a result exactly when
  its \<open>success\<close> is true and an error exactly when its \<open>success\<close> is false; and the
  card that the bulk display draws for the entry never reads an absent result.
\<close>

theorem runBulk_result_iff_success:
  "\<forall>r\<in>set (results (runBulk B files onTime)).
      (result r \<noteq> None) = success r
      \<and> (error r \<noteq> None) = (\<not> success r)
      \<and> (\<exists>c. StudentResultCard r = Inr c)"
proof
  fix r assume "r \<in> set (results (runBulk B files onTime))"
  then obtain f where "r = gradeFile B onTime f"
    by (auto simp: runBulk_report)
  then show "(result r \<noteq> None) = success r \<and> (error r \<noteq> None) = (\<not> success r)
      \<and> (\<exists>c. StudentResultCard r = Inr c)"
    by (simp add: gradeFile_def StudentResultCard_def split: sum.splits)
qed

theorem runBulk_result_iff_success_witness:
  "list_all (\<lambda>r. (result r \<noteq> None) = success r \<and> (error r \<noteq> None) = (\<not> success r))
     (results (runBulk (example_backend 1) example_files False))
   \<and> map (\<lambda>r. error r) (results (runBulk (example_backend 1) example_files False))
       = [None, Some ''The file could not be read'', None]"
proof -
  have "map (\<lambda>r. error r) (results (runBulk (example_backend 1) example_files False))
       = [None, Some ''The file could not be read'', None]"
    by (simp add: runBulk_report example_files_def gradeFile_def gradeSubmission_def
        example_backend_def)
  then show ?thesis
    using runBulk_result_iff_success [of "example_backend 1" example_files False]
    by (simp add: list_all_iff)
qed

section \<open>Properties of the output boundary\<close>

lemma list_all_optional:
  "list_all P (optional key (map_option f v)) = (\<forall>x. v = Some x \<longrightarrow> P (key, f x))"
  by (cases v) (simp_all add: optional_def)

lemma conforms_ObjectI:
  assumes "keys_within properties ks"
    and "list_all (\<lambda>p. list_ex (\<lambda>f. fst f = fst p \<and> conforms (snd (snd f)) (snd p)) declared)
           properties"
    and "list_all (\<lambda>f. fst (snd f) \<longrightarrow> fst f \<in> set (map fst properties)) declared"
  shows "conforms (Object declared) (JObj properties)"
  using assms by (simp add: keys_within_def)

lemma keys_within_Nil: "keys_within [] ks"
  by (simp add: keys_within_def)

lemma keys_within_Cons:
  "keys_within ps ks \<Longrightarrow> key \<notin> set ks \<Longrightarrow> keys_within ((key, j) # ps) (key # ks)"
  by (auto simp: keys_within_def)

lemma keys_within_optional:
  "keys_within ps ks \<Longrightarrow> key \<notin> set ks \<Longrightarrow> keys_within (optional key v @ ps) (key # ks)"
  by (cases v) (auto simp: keys_within_def optional_def)

lemma keys_within_distinct: "keys_within ps ks \<Longrightarrow> distinct (map fst ps)"
  by (simp add: keys_within_def)

lemma conforms_strings: "conforms (Array Text) (strings xs)"
  by (simp add: strings_def list_all_iff)

lemma keys_within_optional_last: "keys_within (optional key v) [key]"
  by (cases v) (auto simp: keys_within_def optional_def)

lemma conforms_EvidenceItem: "conforms EvidenceItem_shape (EvidenceItem_object e)"
  unfolding EvidenceItem_shape_def EvidenceItem_object_def append_Cons append_Nil
proof (rule conforms_ObjectI)
  show "keys_within
          ((''slide_no'', JNum (of_int (slide_no e))) # (''quote'', JStr (quote e))
           # optional ''context'' (map_option JStr (context' e))
           @ optional ''comment'' (map_option JStr (comment e)))
          [''slide_no'', ''quote'', ''context'', ''comment'']"
    by (intro keys_within_Cons keys_within_optional keys_within_optional_last) simp_all
qed (simp_all add: list_all_optional)


lemma list_all_map_iff: "list_all P (map f xs) = (\<forall>x\<in>set xs. P (f x))"
  by (simp add: list_all_iff)

lemma conforms_DeterministicCheckResult:
  "conforms CheckResult_shape (DeterministicCheckResult_object c)"
  unfolding CheckResult_shape_def DeterministicCheckResult_object_def append_Cons append_Nil
proof (rule conforms_ObjectI)
  show "keys_within
          ((''check_name'', JStr (check_name c)) # (''passed'', JBool (passed c))
           # (''score'', JNum (DeterministicCheckResult.score c))
           # (''max_score'', JNum (DeterministicCheckResult.max_score c))
           # (''evidence'', JArr (map EvidenceItem_object (DeterministicCheckResult.evidence c)))
           # (''missing_items'', strings (DeterministicCheckResult.missing_items c))
           # optional ''details'' (map_option JStr (DeterministicCheckResult.details c)))
          [''check_name'', ''passed'', ''score'', ''max_score'', ''evidence'', ''missing_items'',
           ''details'']"
    by (intro keys_within_Cons keys_within_optional keys_within_optional_last) simp_all
qed (simp_all add: list_all_optional list_all_map_iff conforms_EvidenceItem strings_def)

lemma conforms_RubricScore: "conforms RubricScore_shape (RubricScore_object r)"
  unfolding RubricScore_shape_def RubricScore_object_def append_Cons append_Nil
proof (rule conforms_ObjectI)
  show "keys_within
          ((''category'', JStr (RubricScore.category r))
           # (''score'', JNum (RubricScore.score r))
           # (''max_score'', JNum (RubricScore.max_score r))
           # (''reason'', JStr (reason r))
           # (''evidence'', JArr (map EvidenceItem_object (RubricScore.evidence r)))
           # optional ''sub_scores''
               (map_option (\<lambda>m. JObj (map (\<lambda>kv. (fst kv, JNum (snd kv))) m)) (sub_scores r))
           @ optional ''detected_principles''
               (map_option (\<lambda>ds. JArr (map DetectedEthicsPrinciple_object ds))
                  (detected_principles r))
           @ optional ''consistency_analysis'' (map_option JStr (consistency_analysis r))
           @ optional ''found_fields'' (map_option strings (found_fields r))
           @ optional ''missing_fields'' (map_option strings (missing_fields r))
           @ optional ''language_errors'' (map_option strings (language_errors r)))
          [''category'', ''score'', ''max_score'', ''reason'', ''evidence'', ''sub_scores'',
           ''detected_principles'', ''consistency_analysis'', ''found_fields'',
           ''missing_fields'', ''language_errors'']"
    by (intro keys_within_Cons keys_within_optional keys_within_optional_last) simp_all
qed (simp_all add: list_all_optional list_all_map_iff conforms_EvidenceItem)

lemma conforms_ImprovementSuggestion:
  "conforms ImprovementSuggestion_shape (ImprovementSuggestion_object i)"
  unfolding ImprovementSuggestion_shape_def ImprovementSuggestion_object_def
  by (cases "priority i") simp_all

lemma conforms_GradingResult: "conforms GradingResult_shape (GradingResult_object g)"
  unfolding GradingResult_shape_def GradingResult_object_def append_Cons append_Nil
proof (rule conforms_ObjectI)
  show "keys_within
          ((''total_score'', JNum (total_score g))
           # (''rubric_scores'', JArr (map RubricScore_object (rubric_scores g)))
           # (''missing_items'', strings (GradingResult.missing_items g))
           # (''improvements'', JArr (map ImprovementSuggestion_object (improvements g)))
           # (''deterministic_checks'',
                JArr (map DeterministicCheckResult_object (deterministic_checks g)))
           # (''on_time_submitted'', JBool (on_time_submitted g))
           # optional ''grading_notes'' (map_option JStr (grading_notes g))
           @ optional ''overall_evaluation'' (map_option JStr (overall_evaluation g)))
          [''total_score'', ''rubric_scores'', ''missing_items'', ''improvements'',
           ''deterministic_checks'', ''on_time_submitted'', ''grading_notes'',
           ''overall_evaluation'']"
    by (intro keys_within_Cons keys_within_optional keys_within_optional_last) simp_all
qed (simp_all add: list_all_optional list_all_map_iff conforms_RubricScore
      conforms_ImprovementSuggestion conforms_DeterministicCheckResult strings_def)

lemma conforms_StudentResult: "conforms StudentResult_shape (StudentResult_object r)"
  unfolding StudentResult_shape_def StudentResult_object_def append_Cons append_Nil
proof (rule conforms_ObjectI)
  show "keys_within
          ((''student_name'', JStr (student_name r)) # (''filename'', JStr (filename r))
           # (''success'', JBool (success r))
           # optional ''result'' (map_option GradingResult_object (result r))
           @ optional ''error'' (map_option JStr (error r)))
          [''student_name'', ''filename'', ''success'', ''result'', ''error'']"
    by (intro keys_within_Cons keys_within_optional keys_within_optional_last) simp_all
qed (simp_all add: list_all_optional conforms_GradingResult)

text \<open>
  Claim C3. Every \<open>GradingResult\<close> and every bulk report of the declared types, as a
  JSON object, has exactly the field names and the nesting that the specification
  declares: the required fields are there, the optional fields may be, there is no other
  field, and the same holds for every nested object.
\<close>

theorem output_objects_conform:
  "conforms GradingResult_shape (GradingResult_object g)
   \<and> conforms BulkReport_shape (BulkAnalyzeResponse_object b)"
proof
  show "conforms GradingResult_shape (GradingResult_object g)"
    by (rule conforms_GradingResult)
  show "conforms BulkReport_shape (BulkAnalyzeResponse_object b)"
    unfolding BulkReport_shape_def BulkAnalyzeResponse_object_def
    by (simp add: list_all_map_iff conforms_StudentResult)
qed


theorem output_objects_conform_witness:
  "conforms GradingResult_shape (GradingResult_object example_full_result)
   \<and> properties_of (GradingResult_object example_full_result)
       = shape_fields GradingResult_shape
   \<and> properties_of (RubricScore_object example_rubric) = shape_fields RubricScore_shape
   \<and> properties_of (EvidenceItem_object example_evidence) = shape_fields EvidenceItem_shape
   \<and> properties_of (DeterministicCheckResult_object example_check)
       = shape_fields CheckResult_shape
   \<and> properties_of (StudentResult_object example_full_student)
       = shape_fields StudentResult_shape
   \<and> conforms BulkReport_shape (BulkAnalyzeResponse_object example_report)
   \<and> properties_of (BulkAnalyzeResponse_object example_report) = shape_fields BulkReport_shape
   \<and> properties_of (GradingResult_object (example_result 80))
       = [''total_score'', ''rubric_scores'', ''missing_items'', ''improvements'',
          ''deterministic_checks'', ''on_time_submitted'']
   \<and> \<not> conforms BulkReport_shape
         (JObj [(''total_files'', JNum 1), (''successful'', JNum 1), (''failed'', JNum 0)])
   \<and> \<not> conforms BulkReport_shape
         (JObj [(''total_files'', JNum 0), (''successful'', JNum 0), (''failed'', JNum 0),
                (''results'', JArr []), (''elapsed'', JNum 2)])"
proof -
  have c: "conforms GradingResult_shape (GradingResult_object example_full_result)"
    and b: "conforms BulkReport_shape (BulkAnalyzeResponse_object example_report)"
    using output_objects_conform [of example_full_result example_report] by simp_all
  have g: "properties_of (GradingResult_object example_full_result)
       = shape_fields GradingResult_shape"
    by (simp add: properties_of_def GradingResult_object_def example_full_result_def
        optional_def GradingResult_shape_def)
  have r: "properties_of (RubricScore_object example_rubric) = shape_fields RubricScore_shape"
    by (simp add: properties_of_def RubricScore_object_def example_rubric_def optional_def
        RubricScore_shape_def)
  have e: "properties_of (EvidenceItem_object example_evidence)
       = shape_fields EvidenceItem_shape"
    by (simp add: properties_of_def EvidenceItem_object_def example_evidence_def optional_def
        EvidenceItem_shape_def)
  have d: "properties_of (DeterministicCheckResult_object example_check)
       = shape_fields CheckResult_shape"
    by (simp add: properties_of_def DeterministicCheckResult_object_def example_check_def
        optional_def CheckResult_shape_def)
  have t: "properties_of (StudentResult_object example_full_student)
       = shape_fields StudentResult_shape"
    by (simp add: properties_of_def StudentResult_object_def example_full_student_def
        optional_def StudentResult_shape_def)
  have k: "properties_of (BulkAnalyzeResponse_object example_report)
       = shape_fields BulkReport_shape"
    by (simp add: properties_of_def BulkAnalyzeResponse_object_def BulkReport_shape_def)
  have m: "properties_of (GradingResult_object (example_result 80))
       = [''total_score'', ''rubric_scores'', ''missing_items'', ''improvements'',
          ''deterministic_checks'', ''on_time_submitted'']"
    by (simp add: properties_of_def GradingResult_object_def example_result_def optional_def)
  have n1: "\<not> conforms BulkReport_shape
         (JObj [(''total_files'', JNum 1), (''successful'', JNum 1), (''failed'', JNum 0)])"
    by (simp add: BulkReport_shape_def)
  have n2: "\<not> conforms BulkReport_shape
         (JObj [(''total_files'', JNum 0), (''successful'', JNum 0), (''failed'', JNum 0),
                (''results'', JArr []), (''elapsed'', JNum 2)])"
    by (simp add: BulkReport_shape_def)
  from c g r e d t b k m n1 n2 show ?thesis by (intro conjI)
qed

end
